theory Spec2Isabelle
  imports Main "HOL-Library.AList" "HOL-Library.Char_ord" "HOL-Library.List_Lexorder"
begin

section \<open>Python values and exceptions\<close>

text \<open>
  The intake of \<^verbatim>\<open>mwcp/reporter.py\<close> is dynamically typed: a reported value is
  \<^verbatim>\<open>None\<close>, a string, a number, a list or tuple, or a dict with string keys.
\<close>

datatype pyval =
    VNone
  | VStr string
  | VInt int
  | VList "pyval list"
  | VDict "(string \<times> pyval) list"

text \<open>
  The exceptions of the model. \<open>RecursionError\<close> marks a call outside the cascade's
  measure; \<open>add_metadata_unfold\<close> shows that no such call is made.
\<close>

datatype exn =
    KeyError string
  | TypeError
  | AttributeError
  | IndexError
  | ValueError
  | AssertionError
  | RecursionError

text \<open>Python's truth value of an object (\<^verbatim>\<open>not value\<close> is its negation).\<close>

fun truth :: "pyval \<Rightarrow> bool" where
  "truth VNone = False"
| "truth (VStr s) = (s \<noteq> [])"
| "truth (VInt i) = (i \<noteq> 0)"
| "truth (VList xs) = (xs \<noteq> [])"
| "truth (VDict d) = (d \<noteq> [])"

text \<open>
  Iterating a value: a string yields its characters, a dict its keys; \<^verbatim>\<open>None\<close> and
  numbers are not iterable (\<open>None\<close> here is Python's TypeError).
\<close>

fun py_iter :: "pyval \<Rightarrow> pyval list option" where
  "py_iter VNone = None"
| "py_iter (VInt i) = None"
| "py_iter (VStr s) = Some (map (\<lambda>c. VStr [c]) s)"
| "py_iter (VList xs) = Some xs"
| "py_iter (VDict d) = Some (map (\<lambda>kv. VStr (fst kv)) d)"

text \<open>\<^verbatim>\<open>str(type(x))\<close>, as Python 3 prints it.\<close>

fun str_type :: "pyval \<Rightarrow> string" where
  "str_type VNone = ''<class 'NoneType'>''"
| "str_type (VStr s) = ''<class 'str'>''"
| "str_type (VInt i) = ''<class 'int'>''"
| "str_type (VList xs) = ''<class 'list'>''"
| "str_type (VDict d) = ''<class 'dict'>''"

text \<open>
  \<^verbatim>\<open>subvalue[subkey]\<close> with a string \<open>subkey\<close>: only a dict can be subscripted by a
  string; a missing key is a KeyError, every other object a TypeError. (A string can be
  subscripted by integers only.)
\<close>

fun subscript :: "pyval \<Rightarrow> string \<Rightarrow> exn + pyval" where
  "subscript (VDict d) k = (case map_of d k of Some v \<Rightarrow> Inr v | None \<Rightarrow> Inl (KeyError k))"
| "subscript v k = Inl TypeError"

text \<open>
  Modelled from the spec: \<^verbatim>\<open>convert_to_unicode\<close> of \<^verbatim>\<open>mwcp.utils.stringutils\<close> is not
  among the sources. The spec has it normalise a string to unicode; the model has one
  string type, so on a string it is the identity. The spec gives it no other argument;
  here any other object is outside its domain (\<open>None\<close>, raised as a TypeError by its
  callers).
\<close>

fun convert_to_unicode :: "pyval \<Rightarrow> string option" where
  "convert_to_unicode (VStr s) = Some s"
| "convert_to_unicode v = None"

section \<open>String methods and the three regular expressions\<close>

text \<open>\<^verbatim>\<open>s.find(sub)\<close>: the index of the first occurrence.\<close>

fun str_find :: "string \<Rightarrow> string \<Rightarrow> nat option" where
  "str_find sub [] = (if sub = [] then Some 0 else None)"
| "str_find sub (c # cs) =
     (if take (length sub) (c # cs) = sub then Some 0
      else map_option Suc (str_find sub cs))"

text \<open>\<^verbatim>\<open>s.partition(sep)\<close>.\<close>

definition partition_str :: "string \<Rightarrow> string \<Rightarrow> string \<times> string \<times> string" where
  "partition_str sep s =
     (case str_find sep s of
        None \<Rightarrow> (s, [], [])
      | Some i \<Rightarrow> (take i s, sep, drop (i + length sep) s))"

text \<open>\<^verbatim>\<open>s.rstrip(chars)\<close>.\<close>

definition rstrip :: "string \<Rightarrow> string \<Rightarrow> string" where
  "rstrip chars s = rev (dropWhile (\<lambda>c. c \<in> set chars) (rev s))"

definition startswith :: "string \<Rightarrow> string \<Rightarrow> bool" where
  "startswith s p = (take (length p) s = p)"


text \<open>\<^verbatim>\<open>"%i" % n\<close> for a length.\<close>

function str_nat :: "nat \<Rightarrow> string" where
  "str_nat n =
     (if n < 10 then [char_of (48 + n)]
      else str_nat (n div 10) @ [char_of (48 + n mod 10)])"
  by pat_completeness auto
termination
  by (relation "measure id") auto

declare str_nat.simps [simp del]

text \<open>\<^verbatim>\<open>", ".join(xs)\<close> and \<^verbatim>\<open>" ".join(xs)\<close>.\<close>

fun join :: "string \<Rightarrow> string list \<Rightarrow> string" where
  "join sep [] = []"
| "join sep [x] = x"
| "join sep (x # y # ys) = x @ sep @ join sep (y # ys)"

definition is_digit :: "char \<Rightarrow> bool" where
  "is_digit c = (48 \<le> (of_char c :: nat) \<and> (of_char c :: nat) \<le> 57)"

definition is_hexdigit :: "char \<Rightarrow> bool" where
  "is_hexdigit c =
     (is_digit c
      \<or> (97 \<le> (of_char c :: nat) \<and> (of_char c :: nat) \<le> 102)
      \<or> (65 \<le> (of_char c :: nat) \<and> (of_char c :: nat) \<le> 70))"

text \<open>\<^verbatim>\<open>[a-z\.-]\<close>, the characters of a URL scheme.\<close>

definition is_scheme_char :: "char \<Rightarrow> bool" where
  "is_scheme_char c =
     ((97 \<le> (of_char c :: nat) \<and> (of_char c :: nat) \<le> 122)
      \<or> c = CHR ''.'' \<or> c = CHR ''-'')"

text \<open>
  \<^verbatim>\<open>PORT_RE = re.compile(r"[0-9]{1,5}")\<close>, used with \<^verbatim>\<open>search\<close>: some digit occurs.
\<close>

definition PORT_RE_search :: "string \<Rightarrow> bool" where
  "PORT_RE_search s = list_ex is_digit s"

text \<open>
  \<^verbatim>\<open>SHA1_RE = re.compile('[0-9a-fA-F]{40}')\<close>, used with \<^verbatim>\<open>match\<close>: the first forty
  characters are hexadecimal digits.
\<close>

definition SHA1_RE_match :: "string \<Rightarrow> bool" where
  "SHA1_RE_match s = (40 \<le> length s \<and> list_all is_hexdigit (take 40 s))"

text \<open>
  \<^verbatim>\<open>URL_RE = re.compile(r"[a-z\.-]{1,40}://(?P<address>\[?[^/]+\]?)(?P<path>/[^?]+)?")\<close>,
  used with \<^verbatim>\<open>search\<close>. At one start position the scheme is a run of scheme
  characters directly before \<^verbatim>\<open>://\<close>; as \<^verbatim>\<open>:\<close> is no scheme character the run is the
  whole maximal run from that position, which must have 1 to 40 characters. The
  address group then takes greedily every character up to the next \<^verbatim>\<open>/\<close> (at least
  one; the brackets are not \<^verbatim>\<open>/\<close> and fall inside the run), and the optional path
  group takes \<^verbatim>\<open>/\<close> and every character up to the next \<^verbatim>\<open>?\<close> (at least one).
  The result is the pair of the groups \<^verbatim>\<open>address\<close> and \<^verbatim>\<open>path\<close>.
\<close>

definition URL_RE_path :: "string \<Rightarrow> string option" where
  "URL_RE_path rest =
     (case rest of
        [] \<Rightarrow> None
      | c # more \<Rightarrow>
          (let p = takeWhile (\<lambda>x. x \<noteq> CHR ''?'') more
           in if c = CHR ''/'' \<and> p \<noteq> [] then Some (c # p) else None))"

definition URL_RE_match_here :: "string \<Rightarrow> (string \<times> string option) option" where
  "URL_RE_match_here s =
     (let n = length (takeWhile is_scheme_char s);
          rest = drop n s;
          after = drop 3 rest;
          address = takeWhile (\<lambda>x. x \<noteq> CHR ''/'') after
      in if 1 \<le> n \<and> n \<le> 40 \<and> take 3 rest = ''://'' \<and> address \<noteq> []
         then Some (address, URL_RE_path (dropWhile (\<lambda>x. x \<noteq> CHR ''/'') after))
         else None)"

text \<open>\<^verbatim>\<open>search\<close> tries the start positions from left to right.\<close>

fun URL_RE_search :: "string \<Rightarrow> (string \<times> string option) option" where
  "URL_RE_search [] = URL_RE_match_here []"
| "URL_RE_search (c # cs) =
     (case URL_RE_match_here (c # cs) of
        Some m \<Rightarrow> Some m
      | None \<Rightarrow> URL_RE_search cs)"

declare URL_RE_search.simps [simp del]

section \<open>The reporter\<close>

text \<open>
  What \<^verbatim>\<open>Reporter.metadata\<close> holds under a key: a list whose entries are strings
  (listofstrings) or lists of strings (listofstringtuples), or a dict from sub-keys to
  a string or a list of strings (dictofstrings). Python dicts keep insertion order, so
  they are association lists with \<^const>\<open>AList.update\<close>.
\<close>

datatype item = IStr string | ITup "string list"

datatype dictval = DStr string | DList "string list"

datatype mval = MList "item list" | MDict "(string \<times> dictval) list"

record ofile =
  data :: string
  description :: string
  md5 :: string
  path :: "string option"

text \<open>
  The mutable attributes of a \<^verbatim>\<open>Reporter\<close>, with what it writes outside itself: the
  records it hands to the module's logger (\<open>logged\<close>: level and message) and the files it
  writes (\<open>disk\<close>). \<open>log_handler\<close> says whether \<^verbatim>\<open>__reset\<close> has installed the
  \<^verbatim>\<open>ReporterLogHandler\<close>; \<open>input_file\<close> is the md5 of the input file object, if any.
\<close>

record reporter =
  metadata :: "(string \<times> mval) list"
  outputfiles :: "(string \<times> ofile) list"
  errors :: "string list"
  input_file :: "string option"
  log_handler :: bool
  logged :: "(nat \<times> string) list"
  disk :: "(string \<times> string) list"

text \<open>
  What a run does not change: the attributes fixed by \<^verbatim>\<open>__init__\<close> (\<open>field_type\<close> gives the
  \<^verbatim>\<open>type\<close> entry of a field of \<^verbatim>\<open>fields.json\<close>, which is not among the sources), and
  the library functions the reporter calls: the level of the logger and the formatter's
  level character and traceback text, \<^verbatim>\<open>hashlib.md5(...).hexdigest()\<close>,
  \<^verbatim>\<open>base64.b64encode\<close>, \<^verbatim>\<open>ntpath\<close> and \<^verbatim>\<open>os.path\<close>, \<^verbatim>\<open>int\<close>, \<^verbatim>\<open>repr\<close> of a string,
  \<^verbatim>\<open>str\<close> of an exception and of a list of strings, and whether writing a file at a path succeeds
  (\<open>write_error\<close>: the text of the exception when it does not).
\<close>

record env =
  field_type :: "string \<Rightarrow> string option"
  output_dir :: string
  output_file_prefix :: string
  disable_output_files :: bool
  base64_output_files :: bool
  logger_level :: nat
  level_char :: "nat \<Rightarrow> string"
  exc_text :: "exn \<Rightarrow> string"
  md5_hexdigest :: "string \<Rightarrow> string"
  b64encode :: "string \<Rightarrow> string"
  ntpath_basename :: "string \<Rightarrow> string"
  ntpath_dirname :: "string \<Rightarrow> string"
  os_path_basename :: "string \<Rightarrow> string"
  os_path_join :: "string \<Rightarrow> string \<Rightarrow> string"
  py_int :: "string \<Rightarrow> int option"
  py_repr :: "string \<Rightarrow> string"
  py_str_exn :: "exn \<Rightarrow> string"
  py_str_list :: "string list \<Rightarrow> string"
  write_error :: "string \<Rightarrow> string option"

text \<open>
  A method returns the reporter as it left it, and the exception it raised, if any.
\<close>

type_synonym res = "reporter \<times> exn option"

type_synonym intake = "string \<Rightarrow> pyval \<Rightarrow> reporter \<Rightarrow> res"

definition ok :: "reporter \<Rightarrow> res" where
  "ok s = (s, None)"

definition raise :: "exn \<Rightarrow> reporter \<Rightarrow> res" where
  "raise e s = (s, Some e)"

text \<open>Statements in sequence: the first exception ends the sequence.\<close>

fun seq :: "(reporter \<Rightarrow> res) list \<Rightarrow> reporter \<Rightarrow> res" where
  "seq [] s = (s, None)"
| "seq (f # fs) s =
     (case f s of
        (s', None) \<Rightarrow> seq fs s'
      | (s', Some e) \<Rightarrow> (s', Some e))"

declare seq.simps [simp del]

text \<open>An \<^verbatim>\<open>if\<close> statement without \<^verbatim>\<open>else\<close>.\<close>

definition py_if :: "bool \<Rightarrow> (reporter \<Rightarrow> res) \<Rightarrow> reporter \<Rightarrow> res" where
  "py_if c f s = (if c then f s else (s, None))"

section \<open>Logging\<close>

definition INFO :: nat where
  "INFO = 20"

definition WARNING :: nat where
  "WARNING = 30"

definition ERROR :: nat where
  "ERROR = 40"

text \<open>
  The handler's formatter is \<^verbatim>\<open>logging.Formatter("[%(level_char)s] %(message)s")\<close>;
  \<^verbatim>\<open>Formatter.format\<close> appends the traceback text of a record that has one, on a new
  line.
\<close>

definition handler_format :: "env \<Rightarrow> nat \<Rightarrow> string \<Rightarrow> exn option \<Rightarrow> string" where
  "handler_format env levelno msg exc_info =
     (let s = ''['' @ level_char env levelno @ ''] '' @ msg
      in case exc_info of
           None \<Rightarrow> s
         | Some e \<Rightarrow>
             (if exc_text env e = [] then s
              else (if drop (length s - 1) s = ''\<newline>'' then s else s @ ''\<newline>'')
                   @ exc_text env e))"

text \<open>
  \<^verbatim>\<open>ReporterLogHandler.emit\<close>: a record above WARNING goes to \<^verbatim>\<open>errors\<close>, a record
  from INFO to WARNING is reported as the metadata \<^verbatim>\<open>debug\<close>. Python finds
  \<^verbatim>\<open>add_metadata\<close> through the reporter when the call runs, so the handler, like the
  methods below, takes that method as its first argument.
\<close>

definition emit :: "intake \<Rightarrow> nat \<Rightarrow> string \<Rightarrow> reporter \<Rightarrow> res" where
  "emit reporter_add_metadata levelno message s =
     (if levelno > WARNING then ok (s\<lparr>errors := errors s @ [message]\<rparr>)
      else if INFO \<le> levelno \<and> levelno \<le> WARNING
        then reporter_add_metadata ''debug'' (VStr message) s
      else ok s)"

text \<open>
  A call on the module's logger: the record is noted in \<open>logged\<close>; when the logger is
  enabled for the level and the reporter's handler is installed, the handler gets it.
  An exception of the handler reaches the caller of the logger.
\<close>

definition logger_log ::
  "intake \<Rightarrow> env \<Rightarrow> nat \<Rightarrow> string \<Rightarrow> exn option \<Rightarrow> reporter \<Rightarrow> res" where
  "logger_log self_add_metadata env levelno msg exc_info s =
     (let s' = s\<lparr>logged := logged s @ [(levelno, msg)]\<rparr>
      in if log_handler s' \<and> logger_level env \<le> levelno
         then emit self_add_metadata levelno (handler_format env levelno msg exc_info) s'
         else ok s')"

definition logger_info :: "intake \<Rightarrow> env \<Rightarrow> string \<Rightarrow> reporter \<Rightarrow> res" where
  "logger_info self_add_metadata env msg = logger_log self_add_metadata env INFO msg None"

definition logger_warn :: "intake \<Rightarrow> env \<Rightarrow> string \<Rightarrow> reporter \<Rightarrow> res" where
  "logger_warn self_add_metadata env msg = logger_log self_add_metadata env WARNING msg None"

definition logger_error :: "intake \<Rightarrow> env \<Rightarrow> string \<Rightarrow> reporter \<Rightarrow> res" where
  "logger_error self_add_metadata env msg = logger_log self_add_metadata env ERROR msg None"

definition logger_exception :: "intake \<Rightarrow> env \<Rightarrow> string \<Rightarrow> exn \<Rightarrow> reporter \<Rightarrow> res" where
  "logger_exception self_add_metadata env msg e =
     logger_log self_add_metadata env ERROR msg (Some e)"

section \<open>The messages\<close>

text \<open>The texts handed to the logger and to \<^verbatim>\<open>KeyError\<close>, as the source formats them.\<close>

definition msg_no_values :: "string \<Rightarrow> string" where
  "msg_no_values key = ''no values provided for '' @ key @ '', skipping''"

definition msg_invalid_field :: "string \<Rightarrow> string" where
  "msg_invalid_field key = ''Invalid field name: '' @ key"

definition msg_error_adding :: "string \<Rightarrow> string" where
  "msg_error_adding key = ''Error adding metadata for key: '' @ key"

definition msg_invalid_sha1 :: "env \<Rightarrow> string \<Rightarrow> string" where
  "msg_invalid_sha1 env value = ''Invalid SHA1 hash found: '' @ py_repr env value"

definition msg_error_parsing_url :: "string \<Rightarrow> string" where
  "msg_error_parsing_url value = ''Error parsing as url: '' @ value"

definition msg_invalid_url :: "env \<Rightarrow> string \<Rightarrow> string" where
  "msg_invalid_url env address =
     ''Invalid URL '' @ py_repr env address @ '' found ':' at end without a port.''"

text \<open>
  \<^verbatim>\<open>"Expected {} values in type {}, received {}"\<close>, and the same text written with
  \<^verbatim>\<open>%s\<close> and \<^verbatim>\<open>%i\<close> for the fields of a fixed size.
\<close>

definition msg_expected :: "nat \<Rightarrow> string \<Rightarrow> nat \<Rightarrow> string" where
  "msg_expected n key received =
     ''Expected '' @ str_nat n @ '' values in type '' @ key @ '', received ''
     @ str_nat received"

definition msg_expected_three :: "nat \<Rightarrow> string" where
  "msg_expected_three received =
     ''Expected three values in type socketaddress, received '' @ str_nat received"

definition msg_expected_two :: "string \<Rightarrow> nat \<Rightarrow> string" where
  "msg_expected_two key received =
     ''Expected two values in type '' @ key @ '', received '' @ str_nat received"

definition msg_port_range :: string where
  "msg_port_range = ''Expected port to be number between 0 and 65535''"

definition msg_port_type :: string where
  "msg_port_type = ''Expected port type to be tcp or udp (or icmp)''"





definition msg_could_not_add :: "string \<Rightarrow> string \<Rightarrow> string" where
  "msg_could_not_add type_name subkey =
     ''Could not add object of '' @ type_name
     @ '' to metadata under other using key '' @ subkey"

section \<open>The three mergers\<close>

text \<open>\<^verbatim>\<open>dict.setdefault(key, default)\<close>: the object under the key, and the dict.\<close>

definition setdefault ::
  "string \<Rightarrow> mval \<Rightarrow> (string \<times> mval) list \<Rightarrow> mval \<times> (string \<times> mval) list" where
  "setdefault key dflt md =
     (case map_of md key of
        Some obj \<Rightarrow> (obj, md)
      | None \<Rightarrow> (dflt, md @ [(key, dflt)]))"

text \<open>
  \<^verbatim>\<open>obj = self.metadata.setdefault(key, [])\<close> and
  \<^verbatim>\<open>if key == 'debug' or value not in obj: obj.append(value)\<close>. Should the object under
  the key be a dict, \<^verbatim>\<open>in\<close> looks among its keys and \<^verbatim>\<open>append\<close> does not exist.
\<close>

definition store_listofstrings :: "string \<Rightarrow> string \<Rightarrow> reporter \<Rightarrow> res" where
  "store_listofstrings key value s =
     (case setdefault key (MList []) (metadata s) of
        (MList obj, md) \<Rightarrow>
          ok (s\<lparr>metadata :=
                 (if key = ''debug'' \<or> IStr value \<notin> set obj
                  then AList.update key (MList (obj @ [IStr value])) md
                  else md)\<rparr>)
      | (MDict obj, md) \<Rightarrow>
          (if key = ''debug'' \<or> value \<notin> set (map fst obj)
           then raise AttributeError (s\<lparr>metadata := md\<rparr>)
           else ok (s\<lparr>metadata := md\<rparr>)))"

text \<open>
  The rule of \<^verbatim>\<open>url\<close> and \<^verbatim>\<open>c2_url\<close>, the last statement of
  \<^verbatim>\<open>_add_metatadata_listofstrings\<close> (its \<^verbatim>\<open>return\<close> ends the method).
\<close>

definition add_metatadata_listofstrings_url ::
  "intake \<Rightarrow> env \<Rightarrow> string \<Rightarrow> string \<Rightarrow> reporter \<Rightarrow> res" where
  "add_metatadata_listofstrings_url self_add_metadata env key value =
     (case URL_RE_search value of
        None \<Rightarrow> logger_error self_add_metadata env (msg_error_parsing_url value)
      | Some (group_address, group_path) \<Rightarrow>
          seq [
            (case group_path of
               None \<Rightarrow> ok
             | Some p \<Rightarrow> py_if (p \<noteq> []) (self_add_metadata ''urlpath'' (VStr p))),
            py_if (group_address \<noteq> [])
              (let address = rstrip '': '' group_address;
                   (domain, found, port) =
                     (if startswith address ''[''
                      then partition_str '']:'' (drop 1 address)
                      else partition_str '':'' address)
               in if found \<noteq> [] then
                    (if port \<noteq> [] then
                       (if key = ''c2_url''
                        then self_add_metadata ''c2_socketaddress''
                               (VList [VStr domain, VStr port, VStr ''tcp''])
                        else self_add_metadata ''socketaddress''
                               (VList [VStr domain, VStr port, VStr ''tcp'']))
                     else logger_error self_add_metadata env
                            (msg_invalid_url env address))
                  else
                    (if key = ''c2_url''
                     then self_add_metadata ''c2_address'' (VStr address)
                     else self_add_metadata ''address'' (VStr address)))
          ])"

text \<open>The statements of \<^verbatim>\<open>_add_metatadata_listofstrings\<close> after the append.\<close>

definition add_metatadata_listofstrings_rules ::
  "intake \<Rightarrow> env \<Rightarrow> string \<Rightarrow> string \<Rightarrow> (reporter \<Rightarrow> res) list" where
  "add_metatadata_listofstrings_rules self_add_metadata env key value =
            [
              py_if (key = ''filepath'')
                (seq [
                   self_add_metadata ''filename'' (VStr (ntpath_basename env value)),
                   self_add_metadata ''directory'' (VStr (ntpath_dirname env value))]),
              py_if (key = ''c2_url'') (self_add_metadata ''url'' (VStr value)),
              py_if (key = ''c2_address'' \<or> key = ''proxy_address'')
                (self_add_metadata ''address'' (VStr value)),
              py_if (key = ''serviceimage'')
                (case str_find ''.exe'' value of
                   None \<Rightarrow> ok
                 | Some i \<Rightarrow> self_add_metadata ''filepath'' (VStr (take (i + 4) value))),
              py_if (key = ''servicedll'') (self_add_metadata ''filepath'' (VStr value)),
              py_if (key = ''ssl_cer_sha1'')
                (py_if (\<not> SHA1_RE_match value)
                   (logger_error self_add_metadata env (msg_invalid_sha1 env value))),
              py_if (key = ''url'' \<or> key = ''c2_url'')
                (add_metatadata_listofstrings_url self_add_metadata env key value)
            ]"

definition add_metatadata_listofstrings :: "intake \<Rightarrow> env \<Rightarrow> string \<Rightarrow> pyval \<Rightarrow> reporter \<Rightarrow> res" where
  "add_metatadata_listofstrings self_add_metadata env key value0 s =
     (if \<not> truth value0
      then logger_info self_add_metadata env (msg_no_values key) s
      else
        case convert_to_unicode value0 of
          None \<Rightarrow> raise TypeError s
        | Some value \<Rightarrow>
            seq (store_listofstrings key value
                 # add_metatadata_listofstrings_rules self_add_metadata env key value) s)"

text \<open>The two tables of \<^verbatim>\<open>_add_metadata_listofstringtuples\<close>.\<close>

definition expected_size :: "string \<Rightarrow> nat option" where
  "expected_size key =
     (if key = ''proxy'' then Some 5
      else if key = ''rsa_private_key'' then Some 8
      else None)"

definition subfield_map :: "string \<Rightarrow> string list option" where
  "subfield_map key =
     (if key = ''registrypathdata'' then Some [''registrypath'', ''registrydata'']
      else if key = ''service'' then
        Some [''servicename'', ''servicedisplayname'', ''servicedescription'',
              ''serviceimage'', ''servicedll'']
      else if key = ''credential'' then Some [''username'', ''password'']
      else None)"

text \<open>
  \<^verbatim>\<open>obj = self.metadata.setdefault(key, [])\<close> and
  \<^verbatim>\<open>if values not in obj: obj.append(values)\<close>. A list is not hashable, so \<^verbatim>\<open>in\<close> on a
  dict raises.
\<close>

definition store_listofstringtuples :: "string \<Rightarrow> string list \<Rightarrow> reporter \<Rightarrow> res" where
  "store_listofstringtuples key values s =
     (case setdefault key (MList []) (metadata s) of
        (MList obj, md) \<Rightarrow>
          ok (s\<lparr>metadata :=
                 (if ITup values \<notin> set obj
                  then AList.update key (MList (obj @ [ITup values])) md
                  else md)\<rparr>)
      | (MDict obj, md) \<Rightarrow> raise TypeError (s\<lparr>metadata := md\<rparr>))"

text \<open>\<^verbatim>\<open>values[i]\<close>, handed to what uses it: an IndexError beyond the end.\<close>

definition index :: "string list \<Rightarrow> nat \<Rightarrow> (string \<Rightarrow> reporter \<Rightarrow> res) \<Rightarrow> reporter \<Rightarrow> res" where
  "index values i f s = (if i < length values then f (values ! i) s else raise IndexError s)"

definition strs :: "string list \<Rightarrow> pyval" where
  "strs values = VList (map VStr values)"

text \<open>The statements of \<^verbatim>\<open>_add_metadata_listofstringtuples\<close> after the append.\<close>

definition add_metadata_listofstringtuples_rules ::
  "intake \<Rightarrow> env \<Rightarrow> string \<Rightarrow> string list \<Rightarrow> (reporter \<Rightarrow> res) list" where
  "add_metadata_listofstringtuples_rules self_add_metadata env key values =
               [
                 (case subfield_map key of
                    None \<Rightarrow> ok
                  | Some subfields \<Rightarrow>
                      seq [
                        seq (map (\<lambda>(subfield, v).
                                    py_if (v \<noteq> []) (self_add_metadata subfield (VStr v)))
                               (zip subfields values)),
                        py_if (length values \<noteq> length subfields)
                          (logger_warn self_add_metadata env
                             (msg_expected (length subfields) key (length values)))]),
                 py_if (key = ''c2_socketaddress'')
                   (seq [
                      self_add_metadata ''socketaddress'' (strs values),
                      index values 0 (\<lambda>v. self_add_metadata ''c2_address'' (VStr v))]),
                 py_if (key = ''proxy_socketaddress'')
                   (seq [
                      self_add_metadata ''socketaddress'' (strs values),
                      index values 0 (\<lambda>v. self_add_metadata ''proxy_address'' (VStr v))]),
                 py_if (key = ''socketaddress'')
                   (seq [
                      py_if (length values \<noteq> 3)
                        (logger_warn self_add_metadata env (msg_expected_three (length values))),
                      index values 0 (\<lambda>v. self_add_metadata ''address'' (VStr v)),
                      self_add_metadata ''port'' (strs (drop 1 values))]),
                 py_if (key = ''port'' \<or> key = ''listenport'')
                   (seq [
                      py_if (length values \<noteq> 2)
                        (logger_warn self_add_metadata env (msg_expected_two key (length values))),
                      index values 0 (\<lambda>v.
                        if PORT_RE_search v then
                          (case py_int env v of
                             None \<Rightarrow> raise ValueError
                           | Some portnum \<Rightarrow>
                               py_if (portnum < 0 \<or> portnum > 65535)
                                 (logger_warn self_add_metadata env msg_port_range))
                        else logger_warn self_add_metadata env msg_port_range),
                      py_if (length values \<ge> 2)
                        (py_if (values ! 1 \<noteq> ''tcp'' \<and> values ! 1 \<noteq> ''udp''
                                \<and> values ! 1 \<noteq> ''icmp'')
                           (logger_warn self_add_metadata env msg_port_type))]),
                 py_if (key = ''proxy'')
                   (seq [
                      py_if (length values \<noteq> 5)
                        (logger_warn self_add_metadata env (msg_expected 5 key (length values))),
                      self_add_metadata ''credential'' (strs (take 2 values)),
                      (if length (drop 2 values) = 1
                       then index values 2 (\<lambda>v. self_add_metadata ''proxy_address'' (VStr v))
                       else self_add_metadata ''proxy_socketaddress'' (strs (drop 2 values)))]),
                 py_if (key = ''ftp'')
                   (seq [
                      py_if (length values \<noteq> 3)
                        (logger_warn self_add_metadata env (msg_expected 3 key (length values))),
                      self_add_metadata ''credential'' (strs (take 2 values)),
                      py_if (length values \<ge> 3)
                        (index values 2 (\<lambda>v. self_add_metadata ''url'' (VStr v)))]),
                 py_if (key = ''rsa_public_key'')
                   (py_if (length values \<noteq> 2)
                      (logger_warn self_add_metadata env (msg_expected 3 key (length values)))),
                 py_if (key = ''rsa_private_key'')
                   (py_if (length values \<noteq> 8)
                      (logger_warn self_add_metadata env (msg_expected 8 key (length values))))
               ]"

text \<open>
  The padding of the fields that allow shorter tuples, and the conversion of every
  component.
\<close>

definition padded_values :: "string \<Rightarrow> pyval list \<Rightarrow> string list option" where
  "padded_values key components =
     those (map convert_to_unicode
       (case expected_size key of
          None \<Rightarrow> components
        | Some n \<Rightarrow> components @ replicate (n - length components) (VStr [])))"

definition add_metadata_listofstringtuples ::
  "intake \<Rightarrow> env \<Rightarrow> string \<Rightarrow> pyval \<Rightarrow> reporter \<Rightarrow> res" where
  "add_metadata_listofstringtuples self_add_metadata env key values0 s =
     (case py_iter values0 of
        None \<Rightarrow> raise TypeError s
      | Some components \<Rightarrow>
          (case padded_values key components of
             None \<Rightarrow> raise TypeError s
           | Some values \<Rightarrow>
               seq (store_listofstringtuples key values
                    # add_metadata_listofstringtuples_rules self_add_metadata env key values)
                 s))"

text \<open>
  The string branch of \<^verbatim>\<open>_add_metadata_dictofstrings\<close>. Should the object under the
  key be a list, it cannot be subscripted by the sub-key.
\<close>

definition store_dictofstrings :: "string \<Rightarrow> string \<Rightarrow> string \<Rightarrow> reporter \<Rightarrow> res" where
  "store_dictofstrings key subkey subvalue s =
     (case setdefault key (MDict []) (metadata s) of
        (MDict obj, md) \<Rightarrow>
          ok (s\<lparr>metadata :=
                 AList.update key
                   (MDict
                      (case map_of obj subkey of
                         Some (DList existing_value) \<Rightarrow>
                           (if subvalue \<notin> set existing_value
                            then AList.update subkey (DList (existing_value @ [subvalue])) obj
                            else obj)
                       | Some (DStr existing_value) \<Rightarrow>
                           (if subvalue \<noteq> existing_value
                            then AList.update subkey (DList [existing_value, subvalue]) obj
                            else obj)
                       | None \<Rightarrow> AList.update subkey (DStr subvalue) obj))
                   md\<rparr>)
      | (MList obj, md) \<Rightarrow> raise TypeError (s\<lparr>metadata := md\<rparr>))"

text \<open>
  One entry of the loop: a string is merged; for any other value the warning's
  argument \<^verbatim>\<open>str(type(subvalue[subkey]))\<close> is evaluated first.
\<close>

definition add_metadata_dictofstrings_entry ::
  "intake \<Rightarrow> env \<Rightarrow> string \<Rightarrow> string \<Rightarrow> pyval \<Rightarrow> reporter \<Rightarrow> res" where
  "add_metadata_dictofstrings_entry self_add_metadata env key subkey subvalue =
     (case subvalue of
        VStr v \<Rightarrow> store_dictofstrings key subkey v
      | _ \<Rightarrow>
          (case subscript subvalue subkey of
             Inl e \<Rightarrow> raise e
           | Inr x \<Rightarrow>
               logger_warn self_add_metadata env (msg_could_not_add (str_type x) subkey)))"

primrec add_metadata_dictofstrings_items ::
  "intake \<Rightarrow> env \<Rightarrow> string \<Rightarrow> (string \<times> pyval) list \<Rightarrow> reporter \<Rightarrow> res" where
  "add_metadata_dictofstrings_items self_add_metadata env key [] = ok"
| "add_metadata_dictofstrings_items self_add_metadata env key (entry # rest) =
     seq [
       add_metadata_dictofstrings_entry self_add_metadata env key (fst entry) (snd entry),
       add_metadata_dictofstrings_items self_add_metadata env key rest]"

definition add_metadata_dictofstrings ::
  "intake \<Rightarrow> env \<Rightarrow> string \<Rightarrow> pyval \<Rightarrow> reporter \<Rightarrow> res" where
  "add_metadata_dictofstrings self_add_metadata env key value s =
     (case value of
        VDict items \<Rightarrow> add_metadata_dictofstrings_items self_add_metadata env key items s
      | _ \<Rightarrow> raise AttributeError s)"

section \<open>The intake\<close>

text \<open>
  \<^verbatim>\<open>value is None or all(not _value for _value in value)\<close>; \<open>None\<close> is the TypeError of
  iterating a number.
\<close>

definition no_values :: "pyval \<Rightarrow> bool option" where
  "no_values value =
     (if value = VNone then Some True
      else map_option (list_all (\<lambda>v. \<not> truth v)) (py_iter value))"

text \<open>The body of \<^verbatim>\<open>Reporter.add_metadata\<close>, over the method it calls through \<^verbatim>\<open>self\<close>.\<close>

definition add_metadata_body :: "intake \<Rightarrow> env \<Rightarrow> string \<Rightarrow> pyval \<Rightarrow> reporter \<Rightarrow> res" where
  "add_metadata_body self_add_metadata env key value s =
     (case no_values value of
        None \<Rightarrow> raise TypeError s
      | Some True \<Rightarrow>
          logger_warn self_add_metadata env (msg_no_values key) s
      | Some False \<Rightarrow>
          (case field_type env key of
             None \<Rightarrow> raise (KeyError (msg_invalid_field key)) s
           | Some fieldtype \<Rightarrow>
               (case seq [
                       py_if (fieldtype = ''listofstrings'')
                         (add_metatadata_listofstrings self_add_metadata env key value),
                       py_if (fieldtype = ''listofstringtuples'')
                         (add_metadata_listofstringtuples self_add_metadata env key value),
                       py_if (fieldtype = ''dictofstrings'')
                         (add_metadata_dictofstrings self_add_metadata env key value)] s
                of
                  (s', None) \<Rightarrow> ok s'
                | (s', Some e) \<Rightarrow>
                    logger_exception self_add_metadata env (msg_error_adding key) e s')))"

text \<open>
  The cascade is well founded: every rule reports fields of a lower rank, and the log
  handler reports a non-empty \<^verbatim>\<open>debug\<close> line, which reports nothing further.
\<close>

definition cascade_rank :: "string \<Rightarrow> nat" where
  "cascade_rank key =
     (if key \<in> {''c2_url'', ''proxy'', ''ftp'', ''service''} then 3
      else if key \<in> {''url'', ''c2_socketaddress'', ''proxy_socketaddress'',
                      ''serviceimage'', ''servicedll''} then 2
      else if key \<in> {''filepath'', ''socketaddress'', ''c2_address'', ''proxy_address'',
                      ''credential'', ''registrypathdata''} then 1
      else 0)"

definition cascade_measure :: "string \<Rightarrow> pyval \<Rightarrow> nat" where
  "cascade_measure key value =
     (if key = ''debug'' \<and> (case value of VStr v \<Rightarrow> v \<noteq> [] | _ \<Rightarrow> False) then 0
      else cascade_rank key + 1)"

text \<open>
  \<^verbatim>\<open>Reporter.add_metadata\<close>: the body, calling itself through \<^verbatim>\<open>self\<close>. The recursion
  is by the cascade measure; \<open>add_metadata_unfold\<close> below shows that every call the body
  makes is lower in it, so that the method satisfies the equation of the source.
\<close>

function add_metadata :: "env \<Rightarrow> string \<Rightarrow> pyval \<Rightarrow> reporter \<Rightarrow> res" where
  "add_metadata env key value s =
     add_metadata_body
       (\<lambda>k v s'.
          if cascade_measure k v < cascade_measure key value
          then add_metadata env k v s'
          else raise RecursionError s')
       env key value s"
  by pat_completeness auto
termination
  by (relation "measure (\<lambda>(env, key, value, s). cascade_measure key value)") auto

declare add_metadata.simps [simp del]

definition guarded :: "nat \<Rightarrow> intake \<Rightarrow> intake" where
  "guarded bound m k v s =
     (if cascade_measure k v < bound then m k v s else raise RecursionError s)"

text \<open>\<^verbatim>\<open>__reset\<close> and \<^verbatim>\<open>__cleanup\<close>, as far as the reporter's attributes go.\<close>

definition reset :: "reporter \<Rightarrow> reporter" where
  "reset s =
     s\<lparr>input_file := None, metadata := [], outputfiles := [], errors := [],
       log_handler := True\<rparr>"

definition cleanup :: "reporter \<Rightarrow> reporter" where
  "cleanup s = s\<lparr>log_handler := False\<rparr>"

section \<open>Output files\<close>









section \<open>The report\<close>
























section \<open>A reporter to run\<close>

text \<open>
  Modelled from the spec: \<^verbatim>\<open>fields.json\<close> is not among the sources. The spec has it
  map a field name to one of the three types; these are the fields the rules and the
  renderer of the source name, each with the type its rule presupposes.
\<close>

definition fields_json :: "string \<Rightarrow> string option" where
  "fields_json key =
     (if key \<in> set [''c2_socketaddress'', ''proxy'', ''proxy_socketaddress'',
                      ''socketaddress'', ''port'', ''listenport'', ''credential'',
                      ''service'', ''registrypathdata'', ''registrykeyvalue'', ''ftp'',
                      ''rsa_public_key'', ''rsa_private_key'', ''outputfile'']
        then Some ''listofstringtuples''
      else if key = ''other'' then Some ''dictofstrings''
      else if key \<in> set [''debug'', ''c2_url'', ''c2_address'', ''proxy_address'', ''url'',
                           ''urlpath'', ''address'', ''username'', ''password'',
                           ''missionid'', ''useragent'', ''interval'', ''version'',
                           ''mutex'', ''servicename'', ''servicedisplayname'',
                           ''servicedescription'', ''serviceimage'', ''servicedll'',
                           ''injectionprocess'', ''filepath'', ''directory'', ''filename'',
                           ''registrypath'', ''registrydata'', ''registrykey'',
                           ''registryvalue'', ''key'', ''ssl_cer_sha1'']
        then Some ''listofstrings''
      else None)"

text \<open>
  Stand-ins for the library in the examples: a digest that reads the first 32
  characters, \<^verbatim>\<open>int\<close> on decimal digits, POSIX paths, a disk that takes every write.
\<close>

definition example_int :: "string \<Rightarrow> int option" where
  "example_int v =
     (if v \<noteq> [] \<and> list_all is_digit v
      then Some (foldl (\<lambda>a c. 10 * a + (int (of_char c) - 48)) 0 v)
      else None)"

definition example_env :: env where
  "example_env =
     \<lparr>field_type = fields_json,
      output_dir = ''out'',
      output_file_prefix = [],
      disable_output_files = False,
      base64_output_files = False,
      logger_level = 20,
      level_char = (\<lambda>levelno. if levelno \<ge> 40 then ''!'' else if levelno \<ge> 30 then ''-'' else ''+''),
      exc_text = (\<lambda>e. ''Traceback (most recent call last):''),
      md5_hexdigest = (\<lambda>d. take 32 (d @ replicate 32 (CHR ''0''))),
      b64encode = (\<lambda>d. d),
      ntpath_basename = (\<lambda>p. rev (takeWhile (\<lambda>c. c \<noteq> CHR 0x5C) (rev p))),
      ntpath_dirname = (\<lambda>p. rev (drop 1 (dropWhile (\<lambda>c. c \<noteq> CHR 0x5C) (rev p)))),
      os_path_basename = (\<lambda>p. rev (takeWhile (\<lambda>c. c \<noteq> CHR ''/'') (rev p))),
      os_path_join = (\<lambda>a b. if a = [] then b else a @ ''/'' @ b),
      py_int = example_int,
      py_repr = (\<lambda>v. [CHR 0x27] @ v @ [CHR 0x27]),
      py_str_exn = (\<lambda>e. ''error''),
      py_str_list = (\<lambda>vs. ''['' @ join '', '' vs @ '']''),
      write_error = (\<lambda>p. None)\<rparr>"

text \<open>A reporter as \<^verbatim>\<open>__init__\<close> leaves it.\<close>

definition fresh :: reporter where
  "fresh =
     \<lparr>metadata = [], outputfiles = [], errors = [], input_file = None,
      log_handler = False, logged = [], disk = []\<rparr>"

text \<open>
  The list the store holds under a key (none yet: the empty list); \<open>None\<close> when a dict
  stands there.
\<close>

definition field_list :: "reporter \<Rightarrow> string \<Rightarrow> item list option" where
  "field_list s key =
     (case map_of (metadata s) key of
        None \<Rightarrow> Some []
      | Some (MList obj) \<Rightarrow> Some obj
      | Some (MDict d) \<Rightarrow> None)"






text \<open>The store with one more item in the list under a key.\<close>

definition append_item :: "string \<Rightarrow> item \<Rightarrow> (string \<times> mval) list \<Rightarrow> (string \<times> mval) list" where
  "append_item key x md =
     (case map_of md key of
        None \<Rightarrow> md @ [(key, MList [x])]
      | Some (MList obj) \<Rightarrow> AList.update key (MList (obj @ [x])) md
      | Some (MDict d) \<Rightarrow> md)"

text \<open>A statement keeps a relation between the reporter before and after it.\<close>

definition keeps :: "(reporter \<Rightarrow> reporter \<Rightarrow> bool) \<Rightarrow> (reporter \<Rightarrow> res) \<Rightarrow> bool" where
  "keeps R f = (\<forall>s. R s (fst (f s)))"

text \<open>
  A relation that holds between a reporter and itself, composes, and holds across a
  change of \<open>logged\<close> or of \<open>errors\<close>; and a relation that holds across a change of
  the store under one key.
\<close>

definition frame_rel :: "(reporter \<Rightarrow> reporter \<Rightarrow> bool) \<Rightarrow> bool" where
  "frame_rel R =
     ((\<forall>s. R s s) \<and> (\<forall>a b c. R a b \<and> R b c \<longrightarrow> R a c)
      \<and> (\<forall>s l. R s (s\<lparr>logged := l\<rparr>)) \<and> (\<forall>s e. R s (s\<lparr>errors := e\<rparr>)))"

definition allows :: "(reporter \<Rightarrow> reporter \<Rightarrow> bool) \<Rightarrow> string \<Rightarrow> bool" where
  "allows R key =
     (\<forall>s md. (\<forall>k. k \<noteq> key \<longrightarrow> map_of md k = map_of (metadata s) k)
        \<longrightarrow> R s (s\<lparr>metadata := md\<rparr>))"

text \<open>
  Nothing but the store, the errors and the log has changed, and in the store nothing
  under the keys of \<open>K\<close>.
\<close>

definition untouched :: "string set \<Rightarrow> reporter \<Rightarrow> reporter \<Rightarrow> bool" where
  "untouched K s s' =
     (outputfiles s' = outputfiles s \<and> disk s' = disk s \<and> input_file s' = input_file s
      \<and> log_handler s' = log_handler s
      \<and> (\<forall>k \<in> K. map_of (metadata s') k = map_of (metadata s) k))"

text \<open>
  The keys a report of \<open>key\<close> cannot reach: every key but \<^verbatim>\<open>debug\<close> and \<open>key\<close> itself
  that is not lower in the cascade.
\<close>

definition beyond :: "string \<Rightarrow> string set" where
  "beyond key = {k. k \<noteq> ''debug'' \<and> k \<noteq> key \<and> cascade_rank key \<le> cascade_rank k}"

section \<open>The recursion of the intake\<close>

subsection \<open>Every call of the body is lower in the cascade\<close>

lemma add_metadata_guarded:
  "add_metadata env key value s =
     add_metadata_body (guarded (cascade_measure key value) (add_metadata env)) env key value s"
  unfolding guarded_def by (subst add_metadata.simps) (rule refl)

lemma guarded_below: "cascade_measure k v < bound \<Longrightarrow> guarded bound m k v = m k v"
  by (rule ext) (simp add: guarded_def)

lemma handler_format_nonempty: "handler_format env l m e \<noteq> []"
  by (simp add: handler_format_def Let_def split: option.splits)

lemma logger_log_guarded:
  "0 < bound \<Longrightarrow> logger_log (guarded bound m) env l msg e = logger_log m env l msg e"
  by (rule ext) (simp add: logger_log_def emit_def Let_def guarded_def cascade_measure_def handler_format_nonempty)

lemma logger_log_guarded_error:
  "logger_log (guarded bound m) env ERROR msg e = logger_log m env ERROR msg e"
  by (rule ext) (simp add: logger_log_def emit_def Let_def ERROR_def WARNING_def)

lemma py_if_cong: "c = c' \<Longrightarrow> (c' \<Longrightarrow> f = f') \<Longrightarrow> py_if c f = py_if c' f'"
  by (auto simp: py_if_def fun_eq_iff)

lemma guarded_rank:
  "cascade_rank k < r \<Longrightarrow> guarded (Suc r) m k v = m k v"
  by (rule guarded_below) (simp add: cascade_measure_def)

lemma rank_url:
  "key = ''url'' \<or> key = ''c2_url'' \<Longrightarrow> cascade_rank ''urlpath'' < cascade_rank key"
  "key = ''url'' \<or> key = ''c2_url'' \<Longrightarrow> cascade_rank ''address'' < cascade_rank key"
  "key = ''url'' \<or> key = ''c2_url'' \<Longrightarrow> cascade_rank ''socketaddress'' < cascade_rank key"
  "cascade_rank ''c2_socketaddress'' < cascade_rank ''c2_url''"
  "cascade_rank ''c2_address'' < cascade_rank ''c2_url''"
  "key = ''c2_address'' \<or> key = ''proxy_address'' \<Longrightarrow> cascade_rank ''address'' < cascade_rank key"
  by (auto simp: cascade_rank_def)

lemma url_guarded:
  "key = ''url'' \<or> key = ''c2_url'' \<Longrightarrow>
   add_metatadata_listofstrings_url (guarded (Suc (cascade_rank key)) m) env key value
   = add_metatadata_listofstrings_url m env key value"
  unfolding add_metatadata_listofstrings_url_def logger_error_def
  by (cases "key = ''c2_url''")
     (simp_all add: logger_log_guarded guarded_rank rank_url Let_def
        cong: py_if_cong option.case_cong prod.case_cong if_cong)


lemma py_if_simps [simp]: "py_if False f = ok" "py_if True f = f"
  by (auto simp: py_if_def ok_def fun_eq_iff)

lemma rank_more:
  "cascade_rank ''filename'' < cascade_rank ''filepath''"
  "cascade_rank ''directory'' < cascade_rank ''filepath''"
  "cascade_rank ''url'' < cascade_rank ''c2_url''"
  "cascade_rank ''filepath'' < cascade_rank ''serviceimage''"
  "cascade_rank ''filepath'' < cascade_rank ''servicedll''"
  by (auto simp: cascade_rank_def)

lemma listofstrings_rules_guarded:
  "add_metatadata_listofstrings_rules (guarded (Suc (cascade_rank key)) m) env key value
   = add_metatadata_listofstrings_rules m env key value"
  unfolding add_metatadata_listofstrings_rules_def logger_error_def
  by (simp add: logger_log_guarded url_guarded guarded_rank rank_url rank_more
        cong: py_if_cong option.case_cong if_cong)

lemma listofstrings_guarded:
  "add_metatadata_listofstrings (guarded (Suc (cascade_rank key)) m) env key value
   = add_metatadata_listofstrings m env key value"
  unfolding add_metatadata_listofstrings_def logger_info_def
  by (rule ext)
     (simp add: logger_log_guarded listofstrings_rules_guarded cong: option.case_cong)

lemma subfield_rank:
  assumes "subfield_map key = Some subfields" and "k \<in> set subfields"
  shows "cascade_rank k < cascade_rank key"
proof -
  consider "key = ''registrypathdata''" | "key = ''service''" | "key = ''credential''"
    using assms(1) by (simp add: subfield_map_def split: if_splits)
  then show ?thesis
  proof cases
    case 1
    with assms have "k = ''registrypath'' \<or> k = ''registrydata''"
      by (auto simp: subfield_map_def)
    with 1 show ?thesis by (elim disjE; simp add: cascade_rank_def)
  next
    case 2
    with assms have "k = ''servicename'' \<or> k = ''servicedisplayname''
        \<or> k = ''servicedescription'' \<or> k = ''serviceimage'' \<or> k = ''servicedll''"
      by (auto simp: subfield_map_def)
    with 2 show ?thesis by (elim disjE; simp add: cascade_rank_def)
  next
    case 3
    with assms have "k = ''username'' \<or> k = ''password''"
      by (auto simp: subfield_map_def)
    with 3 show ?thesis by (elim disjE; simp add: cascade_rank_def)
  qed
qed

lemma subfields_guarded:
  assumes "subfield_map key = Some subfields"
  shows "map (\<lambda>(subfield, v). py_if (v \<noteq> []) (guarded (Suc (cascade_rank key)) m subfield (VStr v)))
     (zip subfields values)
   = map (\<lambda>(subfield, v). py_if (v \<noteq> []) (m subfield (VStr v))) (zip subfields values)"
proof (rule map_cong [OF refl])
  fix x assume "x \<in> set (zip subfields values)"
  then have "fst x \<in> set subfields"
    using set_zip_leftD [of "fst x" "snd x" subfields "values"] by simp
  then have "guarded (Suc (cascade_rank key)) m (fst x) (VStr (snd x)) = m (fst x) (VStr (snd x))"
    by (intro guarded_rank subfield_rank [OF assms])
  then show "(case x of (subfield, v) \<Rightarrow> py_if (v \<noteq> []) (guarded (Suc (cascade_rank key)) m subfield (VStr v)))
     = (case x of (subfield, v) \<Rightarrow> py_if (v \<noteq> []) (m subfield (VStr v)))"
    by (cases x) simp
qed

lemma rank_tuples:
  "cascade_rank ''socketaddress'' < cascade_rank ''c2_socketaddress''"
  "cascade_rank ''c2_address'' < cascade_rank ''c2_socketaddress''"
  "cascade_rank ''socketaddress'' < cascade_rank ''proxy_socketaddress''"
  "cascade_rank ''proxy_address'' < cascade_rank ''proxy_socketaddress''"
  "cascade_rank ''address'' < cascade_rank ''socketaddress''"
  "cascade_rank ''port'' < cascade_rank ''socketaddress''"
  "cascade_rank ''credential'' < cascade_rank ''proxy''"
  "cascade_rank ''proxy_address'' < cascade_rank ''proxy''"
  "cascade_rank ''proxy_socketaddress'' < cascade_rank ''proxy''"
  "cascade_rank ''credential'' < cascade_rank ''ftp''"
  "cascade_rank ''url'' < cascade_rank ''ftp''"
  by (simp_all add: cascade_rank_def)

lemma listofstringtuples_rules_guarded:
  "add_metadata_listofstringtuples_rules (guarded (Suc (cascade_rank key)) m) env key vs
   = add_metadata_listofstringtuples_rules m env key vs"
  unfolding add_metadata_listofstringtuples_rules_def logger_warn_def
  by (simp add: logger_log_guarded guarded_rank rank_tuples subfields_guarded
        cong: py_if_cong option.case_cong if_cong)

lemma listofstringtuples_guarded:
  "add_metadata_listofstringtuples (guarded (Suc (cascade_rank key)) m) env key value
   = add_metadata_listofstringtuples m env key value"
  unfolding add_metadata_listofstringtuples_def
  by (rule ext) (simp add: listofstringtuples_rules_guarded cong: option.case_cong)

lemma dictofstrings_entry_guarded:
  "0 < bound \<Longrightarrow>
   add_metadata_dictofstrings_entry (guarded bound m) env key subkey subvalue
   = add_metadata_dictofstrings_entry m env key subkey subvalue"
  unfolding add_metadata_dictofstrings_entry_def logger_warn_def
  by (simp add: logger_log_guarded cong: pyval.case_cong sum.case_cong)

lemma dictofstrings_items_guarded:
  "0 < bound \<Longrightarrow>
   add_metadata_dictofstrings_items (guarded bound m) env key items
   = add_metadata_dictofstrings_items m env key items"
  by (induction items) (simp_all add: dictofstrings_entry_guarded)

lemma dictofstrings_guarded:
  "0 < bound \<Longrightarrow>
   add_metadata_dictofstrings (guarded bound m) env key value
   = add_metadata_dictofstrings m env key value"
  unfolding add_metadata_dictofstrings_def
  by (simp add: dictofstrings_items_guarded cong: pyval.case_cong)

lemma body_guarded_rank:
  "add_metadata_body (guarded (Suc (cascade_rank key)) m) env key value
   = add_metadata_body m env key value"
  unfolding add_metadata_body_def logger_warn_def logger_exception_def
  by (simp add: listofstrings_guarded listofstringtuples_guarded dictofstrings_guarded
       logger_log_guarded cong: option.case_cong bool.case_cong prod.case_cong)


lemma body_guarded_debug:
  "v \<noteq> [] \<Longrightarrow>
   add_metadata_body (guarded 0 m) env ''debug'' (VStr v)
   = add_metadata_body m env ''debug'' (VStr v)"
  unfolding add_metadata_body_def logger_exception_def
    add_metatadata_listofstrings_def add_metadata_listofstringtuples_def
    add_metadata_dictofstrings_def add_metatadata_listofstrings_rules_def
    add_metadata_listofstringtuples_rules_def
  by (simp add: logger_log_guarded_error no_values_def list_all_iff
        expected_size_def subfield_map_def
       cong: option.case_cong bool.case_cong prod.case_cong)

lemma add_metadata_unfold:
  "add_metadata env key value s = add_metadata_body (add_metadata env) env key value s"
proof (cases "key = ''debug'' \<and> (\<exists>v. value = VStr v \<and> v \<noteq> [])")
  case True
  then obtain v where v: "key = ''debug''" "value = VStr v" "v \<noteq> []" by blast
  then have "cascade_measure key value = 0" by (simp add: cascade_measure_def)
  then have "add_metadata env key value s
      = add_metadata_body (guarded 0 (add_metadata env)) env key value s"
    by (subst add_metadata_guarded) (simp only:)
  then show ?thesis
    using body_guarded_debug [OF v(3), of "add_metadata env" env] v
    by (simp only:)
next
  case False
  then have "cascade_measure key value = Suc (cascade_rank key)"
    by (auto simp: cascade_measure_def split: pyval.splits)
  then have "add_metadata env key value s
      = add_metadata_body (guarded (Suc (cascade_rank key)) (add_metadata env)) env key value s"
    by (subst add_metadata_guarded) (simp only:)
  then show ?thesis
    by (simp only: body_guarded_rank)
qed

subsection \<open>Running the intake\<close>

lemma seq_Nil: "seq [] = ok"
  by (rule ext) (simp add: seq.simps ok_def)


lemma seq_Cons_raise: "f s = (s', Some e) \<Longrightarrow> seq (f # fs) s = (s', Some e)"
  by (simp add: seq.simps)

lemma seq_ok_Cons: "seq (ok # fs) = seq fs"
  by (rule ext) (simp add: seq.simps ok_def)

lemma res_case_id:
  "(case r of (s', None) \<Rightarrow> (s', None) | (s', Some e) \<Rightarrow> (s', Some e)) = r"
  by (simp split: prod.splits option.splits)

lemma seq_single: "seq [f] = f"
  by (rule ext) (simp add: seq.simps res_case_id)

lemma seq_oks: "seq [f, ok] = f" "seq [f, ok, ok] = f" "seq [ok, f, ok] = f" "seq [ok, ok, f] = f"
  by (rule ext, simp add: seq.simps ok_def res_case_id)+

lemma body_dispatch:
  assumes "no_values value = Some False" and "field_type env key = Some fieldtype"
  shows "add_metadata_body m env key value s =
    (case (if fieldtype = ''listofstrings'' then add_metatadata_listofstrings m env key value
           else if fieldtype = ''listofstringtuples'' then add_metadata_listofstringtuples m env key value
           else if fieldtype = ''dictofstrings'' then add_metadata_dictofstrings m env key value
           else ok) s of
       (s', None) \<Rightarrow> ok s'
     | (s', Some e) \<Rightarrow> logger_exception m env (msg_error_adding key) e s')"
  using assms by (auto simp: add_metadata_body_def seq_oks seq_Nil seq_ok_Cons seq_single)

lemma update_append_new:
  "map_of md key = None \<Longrightarrow> AList.update key v (md @ [(key, w)]) = md @ [(key, v)]"
  by (induction md) (auto split: if_splits)

lemma store_listofstrings_list:
  assumes "field_list s key = Some obj"
  shows "store_listofstrings key v s =
    (s\<lparr>metadata := (if key = ''debug'' \<or> IStr v \<notin> set obj
              then append_item key (IStr v) (metadata s) else metadata s)\<rparr>, None)"
  using assms
  by (auto simp: store_listofstrings_def field_list_def setdefault_def ok_def append_item_def
      update_append_new split: option.splits mval.splits)

lemma field_list_append_item:
  "field_list s key = Some obj \<Longrightarrow>
   field_list (s\<lparr>metadata := append_item key x (metadata s)\<rparr>) key = Some (obj @ [x])"
  by (auto simp: field_list_def append_item_def update_conv' map_add_def
      split: option.splits mval.splits)

lemma map_of_append_item:
  "k \<noteq> key \<Longrightarrow> map_of (append_item key x md) k = map_of md k"
  by (auto simp: append_item_def update_conv' map_add_def split: option.splits mval.splits)

lemma rules_debug:
  "add_metatadata_listofstrings_rules m env ''debug'' v = [ok, ok, ok, ok, ok, ok, ok]"
  by (simp add: add_metatadata_listofstrings_rules_def)

lemma add_metadata_debug_line:
  assumes "field_type env ''debug'' = Some ''listofstrings''" and "v \<noteq> []"
    and "field_list s ''debug'' = Some obj"
  shows "add_metadata env ''debug'' (VStr v) s = store_listofstrings ''debug'' v s"
proof -
  have nv: "no_values (VStr v) = Some False"
    using assms(2) by (cases v) (simp_all add: no_values_def)
  show ?thesis
    by (simp add: add_metadata_unfold body_dispatch [OF nv assms(1)]
        add_metatadata_listofstrings_def assms(2) rules_debug
        seq.simps seq_ok_Cons seq_Nil ok_def store_listofstrings_list [OF assms(3)])
qed

lemma example_env_simps:
  "field_type example_env = fields_json"
  "output_dir example_env = ''out''"
  "output_file_prefix example_env = []"
  "disable_output_files example_env = False"
  "base64_output_files example_env = False"
  "logger_level example_env = 20"
  "level_char example_env 20 = ''+''"
  "level_char example_env 30 = ''-''"
  "level_char example_env 40 = ''!''"
  "exc_text example_env e = ''Traceback (most recent call last):''"
  "md5_hexdigest example_env d = take 32 (d @ replicate 32 (CHR ''0''))"
  "os_path_basename example_env p = rev (takeWhile (\<lambda>c. c \<noteq> CHR ''/'') (rev p))"
  "os_path_join example_env a b = (if a = [] then b else a @ ''/'' @ b)"
  "py_int example_env = example_int"
  "write_error example_env p = None"
  by (simp_all add: example_env_def)

lemma fresh_simps:
  "metadata fresh = []" "outputfiles fresh = []" "errors fresh = []" "input_file fresh = None"
  "log_handler fresh = False" "logged fresh = []" "disk fresh = []"
  by (simp_all add: fresh_def)

lemma reset_simps:
  "metadata (reset s) = []" "outputfiles (reset s) = []" "errors (reset s) = []"
  "input_file (reset s) = None" "log_handler (reset s) = True" "logged (reset s) = logged s"
  "disk (reset s) = disk s"
  by (simp_all add: reset_def)

lemma no_values_result:
  assumes "no_values value = Some True"
  shows "\<not> (log_handler s \<and> logger_level env \<le> WARNING) \<Longrightarrow>
            add_metadata env key value s
            = (s\<lparr>logged := logged s @ [(WARNING, msg_no_values key)]\<rparr>, None)"
    and "log_handler s \<Longrightarrow> logger_level env \<le> WARNING \<Longrightarrow>
         field_type env ''debug'' = Some ''listofstrings'' \<Longrightarrow>
         field_list s ''debug'' = Some obj \<Longrightarrow>
            add_metadata env key value s
            = (s\<lparr>logged := logged s @ [(WARNING, msg_no_values key)],
                 metadata := append_item ''debug''
                   (IStr (handler_format env WARNING (msg_no_values key) None)) (metadata s)\<rparr>,
               None)"
proof -
  let ?s = "s\<lparr>logged := logged s @ [(WARNING, msg_no_values key)]\<rparr>"
  let ?m = "handler_format env WARNING (msg_no_values key) None"
  have body: "add_metadata env key value s
      = logger_warn (add_metadata env) env (msg_no_values key) s"
    using assms by (simp add: add_metadata_unfold add_metadata_body_def)
  show "\<not> (log_handler s \<and> logger_level env \<le> WARNING) \<Longrightarrow>
      add_metadata env key value s = (?s, None)"
    by (auto simp: body logger_warn_def logger_log_def ok_def)
  assume h: "log_handler s" "logger_level env \<le> WARNING"
      "field_type env ''debug'' = Some ''listofstrings''" "field_list s ''debug'' = Some obj"
  have fl: "field_list ?s ''debug'' = Some obj"
    using h(4) by (simp add: field_list_def)
  have "add_metadata env key value s = add_metadata env ''debug'' (VStr ?m) ?s"
    using h(1,2) by (simp add: body logger_warn_def logger_log_def emit_def WARNING_def INFO_def)
  also have "\<dots> = store_listofstrings ''debug'' ?m ?s"
    by (rule add_metadata_debug_line [OF h(3) handler_format_nonempty fl])
  also have "\<dots> = (?s\<lparr>metadata := append_item ''debug'' (IStr ?m) (metadata ?s)\<rparr>, None)"
    by (simp add: store_listofstrings_list [OF fl])
  finally show "add_metadata env key value s
            = (s\<lparr>logged := logged s @ [(WARNING, msg_no_values key)],
                 metadata := append_item ''debug'' (IStr ?m) (metadata s)\<rparr>, None)"
    by simp
qed

lemma example_warning_line:
  "handler_format example_env WARNING (msg_no_values ''mutex'') None
   = ''[-] no values provided for mutex, skipping''"
  by (simp add: handler_format_def WARNING_def example_env_simps msg_no_values_def)

lemma no_values_empty: "no_values (VStr []) = Some True"
  by (simp add: no_values_def)

lemma example_debug:
  "field_type example_env ''debug'' = Some ''listofstrings''"
  "field_list (reset fresh) ''debug'' = Some []"
  "logger_level example_env \<le> WARNING"
  by (simp_all add: example_env_simps fields_json_def field_list_def reset_simps WARNING_def)

subsection \<open>What a report leaves as it was\<close>

lemma keepsI: "(\<And>s. R s (fst (f s))) \<Longrightarrow> keeps R f"
  by (simp add: keeps_def)

lemma keepsD: "keeps R f \<Longrightarrow> R s (fst (f s))"
  by (simp add: keeps_def)

lemma frame_relD:
  assumes "frame_rel R"
  shows "R s s" and "R a b \<Longrightarrow> R b c \<Longrightarrow> R a c"
    and "R s (s\<lparr>logged := l\<rparr>)" and "R s (s\<lparr>errors := e\<rparr>)"
  using assms unfolding frame_rel_def by blast+

lemma keeps_ok: "frame_rel R \<Longrightarrow> keeps R ok"
  by (simp add: keeps_def ok_def frame_relD(1))

lemma keeps_raise: "frame_rel R \<Longrightarrow> keeps R (raise e)"
  by (simp add: keeps_def raise_def frame_relD(1))

lemma keeps_seq:
  assumes "frame_rel R" and "list_all (keeps R) fs"
  shows "keeps R (seq fs)"
  using assms(2)
proof (induction fs)
  case Nil
  then show ?case by (simp add: seq_Nil keeps_ok [OF assms(1)])
next
  case (Cons f fs)
  then have f: "keeps R f" and fs: "keeps R (seq fs)" by simp_all
  show ?case
  proof (rule keepsI)
    fix s
    show "R s (fst (seq (f # fs) s))"
    proof (cases "f s")
      case (Pair s' r)
      have 1: "R s s'" using keepsD [OF f, of s] Pair by simp
      show ?thesis
      proof (cases r)
        case None
        then have "seq (f # fs) s = seq fs s'" using Pair by (simp add: seq.simps)
        then show ?thesis using frame_relD(2) [OF assms(1) 1 keepsD [OF fs, of s']] by simp
      next
        case (Some e)
        then show ?thesis using Pair 1 by (simp add: seq.simps)
      qed
    qed
  qed
qed

lemma keeps_py_if: "frame_rel R \<Longrightarrow> (c \<Longrightarrow> keeps R f) \<Longrightarrow> keeps R (py_if c f)"
  by (cases c) (simp_all add: keeps_ok)

lemma keeps_index: "frame_rel R \<Longrightarrow> (\<And>v. keeps R (f v)) \<Longrightarrow> keeps R (index vs i f)"
  by (simp add: keeps_def index_def raise_def frame_relD(1))

lemma keeps_logger_log:
  assumes "frame_rel R" and "\<And>v. keeps R (m ''debug'' (VStr v))"
  shows "keeps R (logger_log m env l msg e)"
proof (rule keepsI)
  fix s :: reporter
  let ?s = "s\<lparr>logged := logged s @ [(l, msg)]\<rparr>"
  have 1: "R s ?s" by (rule frame_relD(3) [OF assms(1)])
  have 2: "R ?s (fst (emit m l v ?s))" for v
    using keepsD [OF assms(2), of ?s v] frame_relD(1,4) [OF assms(1)]
    by (simp add: emit_def ok_def)
  show "R s (fst (logger_log m env l msg e s))"
    using 1 2 frame_relD(2) [OF assms(1) 1] by (simp add: logger_log_def Let_def ok_def)
qed

lemmas keeps_logger =
  keeps_logger_log [where e = None and l = INFO, folded logger_info_def]
  keeps_logger_log [where e = None and l = WARNING, folded logger_warn_def]
  keeps_logger_log [where e = None and l = ERROR, folded logger_error_def]

lemma keeps_url:
  assumes "frame_rel R" and "\<And>k v. keeps R (m k v)"
  shows "keeps R (add_metatadata_listofstrings_url m env key value)"
  unfolding add_metatadata_listofstrings_url_def
  by (auto simp: Let_def split: option.splits prod.splits
      intro!: keeps_seq keeps_py_if keeps_logger keeps_ok assms)

lemma keeps_listofstrings_rules:
  assumes "frame_rel R" and "\<And>k v. keeps R (m k v)"
  shows "list_all (keeps R) (add_metatadata_listofstrings_rules m env key value)"
  unfolding add_metatadata_listofstrings_rules_def
  by (auto split: option.splits
      intro!: keeps_seq keeps_py_if keeps_logger keeps_ok keeps_url assms)

lemma keeps_subfields:
  assumes "frame_rel R" and "\<And>k v. keeps R (m k v)"
  shows "list_all (keeps R)
    (map (\<lambda>(subfield, v). py_if (v \<noteq> []) (m subfield (VStr v))) (zip subfields vs))"
  by (auto simp: list_all_iff intro!: keeps_py_if assms)

lemma keeps_listofstringtuples_rules:
  assumes "frame_rel R" and "\<And>k v. keeps R (m k v)"
  shows "list_all (keeps R) (add_metadata_listofstringtuples_rules m env key vs)"
  unfolding add_metadata_listofstringtuples_rules_def
  by (auto split: option.splits
      intro!: keeps_seq keeps_py_if keeps_logger keeps_ok keeps_raise keeps_index
        keeps_subfields assms)

lemma allowsD:
  "allows R key \<Longrightarrow> (\<And>k. k \<noteq> key \<Longrightarrow> map_of md k = map_of (metadata s) k) \<Longrightarrow>
   R s (s\<lparr>metadata := md\<rparr>)"
  unfolding allows_def by blast

lemma map_of_setdefault:
  "k \<noteq> key \<Longrightarrow> map_of (snd (setdefault key d md)) k = map_of md k"
  by (auto simp: setdefault_def map_add_def split: option.splits)

lemma keeps_store_listofstrings:
  assumes "allows R key"
  shows "keeps R (store_listofstrings key v)"
proof (rule keepsI)
  fix s :: reporter
  obtain obj md where sd: "setdefault key (MList []) (metadata s) = (obj, md)"
    by (cases "setdefault key (MList []) (metadata s)")
  have md: "map_of md k = map_of (metadata s) k" if "k \<noteq> key" for k
    using map_of_setdefault [OF that, of "MList []" "metadata s"] sd by simp
  have "R s (s\<lparr>metadata := md\<rparr>)"
    and "R s (s\<lparr>metadata := AList.update key x md\<rparr>)" for x
    by (rule allowsD [OF assms]; simp add: md update_conv')+
  then show "R s (fst (store_listofstrings key v s))"
    by (cases obj) (simp_all add: store_listofstrings_def sd ok_def raise_def)
qed

lemma keeps_store_listofstringtuples:
  assumes "allows R key"
  shows "keeps R (store_listofstringtuples key v)"
proof (rule keepsI)
  fix s :: reporter
  obtain obj md where sd: "setdefault key (MList []) (metadata s) = (obj, md)"
    by (cases "setdefault key (MList []) (metadata s)")
  have md: "map_of md k = map_of (metadata s) k" if "k \<noteq> key" for k
    using map_of_setdefault [OF that, of "MList []" "metadata s"] sd by simp
  have "R s (s\<lparr>metadata := md\<rparr>)"
    and "R s (s\<lparr>metadata := AList.update key x md\<rparr>)" for x
    by (rule allowsD [OF assms]; simp add: md update_conv')+
  then show "R s (fst (store_listofstringtuples key v s))"
    by (cases obj) (simp_all add: store_listofstringtuples_def sd ok_def raise_def)
qed

lemma keeps_store_dictofstrings:
  assumes "allows R key"
  shows "keeps R (store_dictofstrings key subkey v)"
proof (rule keepsI)
  fix s :: reporter
  obtain obj md where sd: "setdefault key (MDict []) (metadata s) = (obj, md)"
    by (cases "setdefault key (MDict []) (metadata s)")
  have md: "map_of md k = map_of (metadata s) k" if "k \<noteq> key" for k
    using map_of_setdefault [OF that, of "MDict []" "metadata s"] sd by simp
  have "R s (s\<lparr>metadata := md\<rparr>)"
    and "R s (s\<lparr>metadata := AList.update key x md\<rparr>)" for x
    by (rule allowsD [OF assms]; simp add: md update_conv')+
  then show "R s (fst (store_dictofstrings key subkey v s))"
    by (cases obj) (simp_all add: store_dictofstrings_def sd ok_def raise_def)
qed

lemma keeps_listofstrings:
  assumes "frame_rel R" and "allows R key" and "\<And>k v. keeps R (m k v)"
  shows "keeps R (add_metatadata_listofstrings m env key value)"
proof -
  have "keeps R (seq (store_listofstrings key v # add_metatadata_listofstrings_rules m env key v))"
    for v
    by (rule keeps_seq [OF assms(1)])
       (simp add: keeps_store_listofstrings [OF assms(2)]
          keeps_listofstrings_rules [OF assms(1,3)])
  then show ?thesis
    using keeps_logger(1) [OF assms(1), of m env] assms(3) keeps_raise [OF assms(1)]
    by (auto simp: keeps_def add_metatadata_listofstrings_def split: option.splits)
qed

lemma keeps_listofstringtuples:
  assumes "frame_rel R" and "allows R key" and "\<And>k v. keeps R (m k v)"
  shows "keeps R (add_metadata_listofstringtuples m env key value)"
proof -
  have "keeps R (seq (store_listofstringtuples key v # add_metadata_listofstringtuples_rules m env key v))"
    for v
    by (rule keeps_seq [OF assms(1)])
       (simp add: keeps_store_listofstringtuples [OF assms(2)]
          keeps_listofstringtuples_rules [OF assms(1,3)])
  then show ?thesis
    using keeps_raise [OF assms(1)]
    by (auto simp: keeps_def add_metadata_listofstringtuples_def split: option.splits)
qed

lemma keeps_dictofstrings_entry:
  assumes "frame_rel R" and "allows R key" and "\<And>k v. keeps R (m k v)"
  shows "keeps R (add_metadata_dictofstrings_entry m env key subkey subvalue)"
  unfolding add_metadata_dictofstrings_entry_def
  by (auto split: pyval.splits sum.splits
      intro!: keeps_logger keeps_raise keeps_store_dictofstrings assms)

lemma keeps_dictofstrings_items:
  assumes "frame_rel R" and "allows R key" and "\<And>k v. keeps R (m k v)"
  shows "keeps R (add_metadata_dictofstrings_items m env key items)"
  by (induction items)
     (auto intro!: keeps_ok keeps_seq keeps_dictofstrings_entry assms)

lemma keeps_dictofstrings:
  assumes "frame_rel R" and "allows R key" and "\<And>k v. keeps R (m k v)"
  shows "keeps R (add_metadata_dictofstrings m env key value)"
  using keeps_dictofstrings_items [OF assms, where env = env] keeps_raise [OF assms(1)]
  by (auto simp: keeps_def add_metadata_dictofstrings_def split: pyval.splits)

lemma keeps_body:
  assumes "frame_rel R" and "allows R key" and "\<And>k v. keeps R (m k v)"
  shows "keeps R (add_metadata_body m env key value)"
proof (rule keepsI)
  fix s :: reporter
  let ?attempt = "\<lambda>fieldtype. seq [
      py_if (fieldtype = ''listofstrings'') (add_metatadata_listofstrings m env key value),
      py_if (fieldtype = ''listofstringtuples'') (add_metadata_listofstringtuples m env key value),
      py_if (fieldtype = ''dictofstrings'') (add_metadata_dictofstrings m env key value)]"
  have tried: "keeps R (?attempt fieldtype)" for fieldtype
    by (rule keeps_seq [OF assms(1)])
       (simp add: keeps_py_if [OF assms(1)] keeps_listofstrings [OF assms]
          keeps_listofstringtuples [OF assms] keeps_dictofstrings [OF assms])
  have exc: "keeps R (logger_exception m env msg e)" for msg e
    unfolding logger_exception_def by (rule keeps_logger_log [OF assms(1,3)])
  have warn: "keeps R (logger_warn m env msg)" for msg
    by (rule keeps_logger(2) [OF assms(1,3)])
  have handled: "R s (fst (case ?attempt fieldtype s of
        (s', None) \<Rightarrow> ok s'
      | (s', Some e) \<Rightarrow> logger_exception m env msg e s'))" for fieldtype msg
  proof (cases "?attempt fieldtype s")
    case (Pair s' r)
    have 1: "R s s'" using keepsD [OF tried, of s fieldtype] Pair by simp
    show ?thesis
      using Pair 1 frame_relD(2) [OF assms(1) 1 keepsD [OF exc, of s']]
      by (cases r) (simp_all add: ok_def)
  qed
  show "R s (fst (add_metadata_body m env key value s))"
    unfolding add_metadata_body_def
    using handled keepsD [OF warn, of s] frame_relD(1) [OF assms(1), of s]
    by (simp add: raise_def split: option.splits bool.splits)
qed

lemma frame_rel_untouched: "frame_rel (untouched K)"
  by (auto simp: frame_rel_def untouched_def)

lemma allows_untouched: "key \<notin> K \<Longrightarrow> allows (untouched K) key"
  by (auto simp: allows_def untouched_def)

lemma untouched_mono: "K \<subseteq> K' \<Longrightarrow> untouched K' s s' \<Longrightarrow> untouched K s s'"
  by (auto simp: untouched_def)

lemma beyond_mono:
  assumes "cascade_measure k v < cascade_measure key value"
  shows "beyond key \<subseteq> beyond k"
proof (cases "k = ''debug''")
  case True
  have "cascade_rank ''debug'' = 0" by (simp add: cascade_rank_def)
  with True show ?thesis by (auto simp: beyond_def)
next
  case False
  then have "cascade_measure k v = Suc (cascade_rank k)"
    by (simp add: cascade_measure_def)
  moreover have "cascade_measure key value \<le> Suc (cascade_rank key)"
    by (simp add: cascade_measure_def)
  ultimately have "cascade_rank k < cascade_rank key" using assms by simp
  then show ?thesis by (auto simp: beyond_def)
qed

lemma keeps_guarded:
  assumes "frame_rel R"
    and "\<And>k v. cascade_measure k v < bound \<Longrightarrow> keeps R (m k v)"
  shows "keeps R (guarded bound m k v)"
  using assms(2) [of k v] frame_relD(1) [OF assms(1)]
  by (auto simp: keeps_def guarded_def raise_def)

lemma add_metadata_frame: "keeps (untouched (beyond key)) (add_metadata env key v0)"
proof (induction "cascade_measure key v0" arbitrary: key v0 rule: less_induct)
  case less
  let ?R = "untouched (beyond key)"
  have calls: "keeps ?R (add_metadata env k v)"
    if "cascade_measure k v < cascade_measure key v0" for k v
    using less [OF that] untouched_mono [OF beyond_mono [OF that]]
    by (auto simp: keeps_def)
  have "keeps ?R (add_metadata_body (guarded (cascade_measure key v0) (add_metadata env))
      env key v0)"
    by (rule keeps_body [OF frame_rel_untouched allows_untouched
          keeps_guarded [OF frame_rel_untouched calls]])
       (simp_all add: beyond_def)
  then show ?case
    by (simp add: keeps_def add_metadata_guarded)
qed

lemma key_in_beyond:
  assumes "key \<noteq> ''debug''" and "cascade_measure k v < Suc (cascade_rank key)"
  shows "key \<in> beyond k"
proof (cases "k = ''debug''")
  case True
  have "cascade_rank ''debug'' = 0" by (simp add: cascade_rank_def)
  with True assms(1) show ?thesis by (auto simp: beyond_def)
next
  case False
  then have "cascade_measure k v = Suc (cascade_rank k)"
    by (simp add: cascade_measure_def)
  with assms(2) have "cascade_rank k < cascade_rank key" by simp
  with assms(1) show ?thesis by (auto simp: beyond_def)
qed

lemma lower_calls_keep_key:
  assumes "key \<noteq> ''debug''"
  shows "keeps (untouched {key}) (guarded (Suc (cascade_rank key)) (add_metadata env) k v)"
proof (rule keeps_guarded [OF frame_rel_untouched])
  fix k' v' assume "cascade_measure k' v' < Suc (cascade_rank key)"
  then have "key \<in> beyond k'" by (rule key_in_beyond [OF assms])
  then show "keeps (untouched {key}) (add_metadata env k' v')"
    using add_metadata_frame [of k' env v'] untouched_mono [of "{key}" "beyond k'"]
    by (auto simp: keeps_def)
qed

lemma debug_calls_keep_key:
  assumes "key \<noteq> ''debug''"
  shows "keeps (untouched {key}) (add_metadata env ''debug'' v)"
proof -
  have "cascade_rank ''debug'' = 0" by (simp add: cascade_rank_def)
  then have "key \<in> beyond ''debug''" using assms by (simp add: beyond_def)
  then show ?thesis
    using add_metadata_frame [of "''debug''" env v] untouched_mono [of "{key}" "beyond ''debug''"]
    by (auto simp: keeps_def)
qed


lemma listofstringtuples_rules_keep_key:
  assumes "key \<noteq> ''debug''"
  shows "keeps (untouched {key}) (seq (add_metadata_listofstringtuples_rules (add_metadata env) env key vs))"
proof -
  have "list_all (keeps (untouched {key}))
      (add_metadata_listofstringtuples_rules (guarded (Suc (cascade_rank key)) (add_metadata env)) env key vs)"
    by (rule keeps_listofstringtuples_rules [OF frame_rel_untouched lower_calls_keep_key [OF assms]])
  then show ?thesis
    by (simp only: listofstringtuples_rules_guarded keeps_seq [OF frame_rel_untouched])
qed

lemma field_list_untouched: "untouched {key} s s' \<Longrightarrow> field_list s' key = field_list s key"
  by (simp add: untouched_def field_list_def)

text \<open>After the append, nothing the report does reaches the list under its own key.\<close>

lemma handled_keeps_key:
  assumes "key \<noteq> ''debug''" and "keeps (untouched {key}) f"
  shows "field_list (fst (case f s of
        (s', None) \<Rightarrow> ok s'
      | (s', Some e) \<Rightarrow> logger_exception (add_metadata env) env msg e s')) key
    = field_list s key"
proof (cases "f s")
  case (Pair s' r)
  have 1: "untouched {key} s s'" using keepsD [OF assms(2), of s] Pair by simp
  have "keeps (untouched {key}) (logger_exception (add_metadata env) env msg e)" for e
    unfolding logger_exception_def
    by (rule keeps_logger_log [where m = "add_metadata env", OF frame_rel_untouched])
       (rule debug_calls_keep_key [OF assms(1)])
  then have 2: "untouched {key} s' (fst (logger_exception (add_metadata env) env msg e s'))" for e
    by (rule keepsD)
  show ?thesis
    using Pair field_list_untouched [OF 1] field_list_untouched [OF 2]
    by (cases r) (simp_all add: ok_def)
qed





lemma store_listofstringtuples_list:
  assumes "field_list s key = Some obj"
  shows "store_listofstringtuples key vs s =
    (s\<lparr>metadata := (if ITup vs \<notin> set obj
              then append_item key (ITup vs) (metadata s) else metadata s)\<rparr>, None)"
  using assms
  by (auto simp: store_listofstringtuples_def field_list_def setdefault_def ok_def
      append_item_def update_append_new split: option.splits mval.splits)

lemma listofstringtuples_report:
  assumes "key \<noteq> ''debug''" and "field_type env key = Some ''listofstringtuples''"
    and "no_values v0 = Some False" and "py_iter v0 = Some components"
    and "padded_values key components = Some vs" and "field_list s key = Some obj"
  shows "field_list (fst (add_metadata env key v0 s)) key
    = Some (if ITup vs \<in> set obj then obj else obj @ [ITup vs])"
proof -
  let ?s0 = "s\<lparr>metadata := (if ITup vs \<notin> set obj
      then append_item key (ITup vs) (metadata s) else metadata s)\<rparr>"
  let ?rules = "seq (add_metadata_listofstringtuples_rules (add_metadata env) env key vs)"
  have merger: "add_metadata_listofstringtuples (add_metadata env) env key v0 s = ?rules ?s0"
    using assms(4,5) store_listofstringtuples_list [OF assms(6), of vs]
    by (simp add: add_metadata_listofstringtuples_def seq.simps)
  have "field_list (fst (add_metadata env key v0 s)) key = field_list ?s0 key"
    using handled_keeps_key [OF assms(1) listofstringtuples_rules_keep_key [OF assms(1)],
        where s = ?s0 and env = env and vs1 = vs]
    by (simp add: add_metadata_unfold body_dispatch [OF assms(3,2)] merger)
  also have "\<dots> = Some (if ITup vs \<in> set obj then obj else obj @ [ITup vs])"
    using assms(6) field_list_append_item [OF assms(6), of "ITup vs"] by simp
  finally show ?thesis .
qed

lemma those_convert_strs: "those (map convert_to_unicode (map VStr vs)) = Some vs"
  by (induction vs) simp_all

lemma padded_values_strs:
  assumes "expected_size key = Some n"
  shows "padded_values key (map VStr vs) = Some (vs @ replicate (n - length vs) [])"
proof -
  have "map VStr vs @ replicate (n - length vs) (VStr [])
      = map VStr (vs @ replicate (n - length vs) [])"
    by (simp add: map_replicate)
  then have "padded_values key (map VStr vs)
      = those (map convert_to_unicode (map VStr (vs @ replicate (n - length vs) [])))"
    using assms by (simp only: padded_values_def option.case length_map)
  then show ?thesis
    by (simp only: those_convert_strs)
qed

lemma no_values_strs: "no_values (strs vs) = Some (list_all (\<lambda>v. v = []) vs)"
  by (simp add: no_values_def strs_def list_all_iff)

lemma expected_size_not_debug: "expected_size key = Some n \<Longrightarrow> key \<noteq> ''debug''"
  by (auto simp: expected_size_def split: if_splits)

lemma padded_report:
  assumes "expected_size key = Some n" and "field_type env key = Some ''listofstringtuples''"
    and "\<not> list_all (\<lambda>v. v = []) vs" and "field_list s key = Some obj"
  shows "field_list (fst (add_metadata env key (strs vs) s)) key
    = Some (if ITup (vs @ replicate (n - length vs) []) \<in> set obj then obj
            else obj @ [ITup (vs @ replicate (n - length vs) [])])"
  using assms(3)
  by (intro listofstringtuples_report [OF expected_size_not_debug [OF assms(1)] assms(2) _ _
        padded_values_strs [OF assms(1)] assms(4)])
     (simp_all add: no_values_strs [unfolded strs_def] strs_def)

subsection \<open>The renaming loop and the table of output files\<close>

































subsection \<open>Two reports evaluated\<close>

lemmas eval_defs =
  add_metadata_unfold add_metadata_body_def no_values_def seq.simps
  add_metatadata_listofstrings_def add_metatadata_listofstrings_rules_def
  add_metatadata_listofstrings_url_def
  add_metadata_listofstringtuples_def add_metadata_listofstringtuples_rules_def
  add_metadata_dictofstrings_def add_metadata_dictofstrings_entry_def
  store_listofstrings_def store_listofstringtuples_def store_dictofstrings_def
  setdefault_def index_def strs_def padded_values_def expected_size_def subfield_map_def
  ok_def raise_def Let_def

lemma url_example:
  "URL_RE_search ''http://bad.com:80/x'' = Some (''bad.com:80'', Some ''/x'')"
  by (simp add: URL_RE_search.simps URL_RE_match_here_def URL_RE_path_def is_scheme_char_def
      Let_def)

lemma address_example:
  "rstrip '': '' ''bad.com:80'' = ''bad.com:80''"
  "startswith ''bad.com:80'' ''['' = False"
  "partition_str '':'' ''bad.com:80'' = (''bad.com'', '':'', ''80'')"
  by (simp_all add: rstrip_def startswith_def partition_str_def)

subsection \<open>The sections of the report\<close>




section \<open>The claims\<close>

text \<open>
  C1 (as amended). For every key that is not in the field schema and every value that
  is not \<^verbatim>\<open>None\<close> and has a non-empty component, \<^verbatim>\<open>add_metadata\<close> raises the KeyError
  of an invalid field name and leaves the reporter as it was.
\<close>

theorem add_metadata_unknown_field:
  assumes "field_type env key = None" and "no_values value = Some False"
  shows "add_metadata env key value s = (s, Some (KeyError (msg_invalid_field key)))"
  using assms by (simp add: add_metadata_unfold add_metadata_body_def raise_def)

theorem add_metadata_unknown_field_witness:
  "field_type example_env ''nosuchfield'' = None
   \<and> no_values (VStr ''x'') = Some False
   \<and> add_metadata example_env ''nosuchfield'' (VStr ''x'') fresh
       = (fresh, Some (KeyError ''Invalid field name: nosuchfield''))"
  using add_metadata_unknown_field [of example_env "''nosuchfield''" "VStr ''x''" fresh]
  by (simp add: example_env_def fields_json_def no_values_def msg_invalid_field_def)

text \<open>
  C1 as stated fails on an empty value: the test for no values comes before the lookup
  in the schema, so an unknown key with an empty string raises nothing.
\<close>

theorem add_metadata_unknown_field_empty_value:
  "field_type example_env ''nosuchfield'' = None
   \<and> snd (add_metadata example_env ''nosuchfield'' (VStr []) fresh) = None"
  by (simp add: add_metadata_unfold add_metadata_body_def example_env_def fields_json_def
      no_values_def logger_warn_def logger_log_def fresh_def ok_def)

text \<open>
  C5 (as amended). For every key, known or unknown, \<^verbatim>\<open>add_metadata\<close> with a value that is
  \<^verbatim>\<open>None\<close> or has no non-empty component raises nothing and reports nothing under the
  key. It hands the logger one record at the level WARNING. Where the reporter's log
  handler is not installed or the logger is not enabled for warnings, nothing else
  changes; where it is, the handler reports the formatted warning as a line of the field
  \<^verbatim>\<open>debug\<close>.
\<close>

theorem add_metadata_no_values:
  assumes "no_values value = Some True"
  shows "(\<not> (log_handler s \<and> logger_level env \<le> WARNING) \<longrightarrow>
            add_metadata env key value s
            = (s\<lparr>logged := logged s @ [(WARNING, msg_no_values key)]\<rparr>, None))
       \<and> (log_handler s \<and> logger_level env \<le> WARNING
            \<and> field_type env ''debug'' = Some ''listofstrings''
            \<and> field_list s ''debug'' = Some obj \<longrightarrow>
            add_metadata env key value s
            = (s\<lparr>logged := logged s @ [(WARNING, msg_no_values key)],
                 metadata := append_item ''debug''
                   (IStr (handler_format env WARNING (msg_no_values key) None)) (metadata s)\<rparr>,
               None))"
  using no_values_result [OF assms] by blast

theorem add_metadata_no_values_witness:
  "no_values (VStr []) = Some True
   \<and> add_metadata example_env ''mutex'' (VStr []) fresh
       = (fresh\<lparr>logged := [(WARNING, msg_no_values ''mutex'')]\<rparr>, None)
   \<and> add_metadata example_env ''mutex'' (VStr []) (reset fresh)
       = (reset fresh\<lparr>logged := [(WARNING, msg_no_values ''mutex'')],
            metadata := [(''debug'', MList [IStr ''[-] no values provided for mutex, skipping''])]\<rparr>,
          None)"
proof -
  note inst = add_metadata_no_values [OF no_values_empty]
  have 1: "add_metadata example_env ''mutex'' (VStr []) fresh
       = (fresh\<lparr>logged := [(WARNING, msg_no_values ''mutex'')]\<rparr>, None)"
    using inst [of fresh example_env "''mutex''" "[]"] by (simp add: fresh_simps)
  have 2: "add_metadata example_env ''mutex'' (VStr []) (reset fresh)
       = (reset fresh\<lparr>logged := [(WARNING, msg_no_values ''mutex'')],
            metadata := [(''debug'', MList [IStr ''[-] no values provided for mutex, skipping''])]\<rparr>,
          None)"
    using inst [of "reset fresh" example_env "''mutex''" "[]"] example_debug
    by (simp add: reset_simps fresh_simps example_warning_line append_item_def)
  show ?thesis using 1 2 no_values_empty by simp
qed

text \<open>
  C5 as stated fails twice: the record is a warning, not an informational one, and in
  a run (after \<^verbatim>\<open>__reset\<close>) the store gets a \<^verbatim>\<open>debug\<close> line.
\<close>

theorem add_metadata_no_values_warning:
  "map fst (logged (fst (add_metadata example_env ''mutex'' (VStr []) fresh))) = [WARNING]
   \<and> WARNING \<noteq> INFO
   \<and> metadata (reset fresh) = []
   \<and> metadata (fst (add_metadata example_env ''mutex'' (VStr []) (reset fresh)))
       = [(''debug'', MList [IStr ''[-] no values provided for mutex, skipping''])]"
proof -
  have 1: "add_metadata example_env ''mutex'' (VStr []) fresh
       = (fresh\<lparr>logged := [(WARNING, msg_no_values ''mutex'')]\<rparr>, None)"
    using no_values_result(1) [OF no_values_empty, of fresh example_env "''mutex''"]
    by (simp add: fresh_simps)
  have 2: "add_metadata example_env ''mutex'' (VStr []) (reset fresh)
       = (reset fresh\<lparr>logged := [(WARNING, msg_no_values ''mutex'')],
            metadata := [(''debug'', MList [IStr ''[-] no values provided for mutex, skipping''])]\<rparr>,
          None)"
    using no_values_result(2) [OF no_values_empty _ example_debug(3,1,2), of "''mutex''"]
    by (simp add: reset_simps fresh_simps example_warning_line append_item_def)
  show ?thesis by (simp add: 1 2 reset_simps WARNING_def INFO_def)
qed



text \<open>
  C10. For a field with a declared size (\<^verbatim>\<open>proxy\<close>: 5, \<^verbatim>\<open>rsa_private_key\<close>: 8),
  reporting a shorter tuple with a non-empty component and then the same tuple padded
  with empty strings to that size stores the padded tuple once: after the first report
  the list of the field has one new entry, the padded tuple, and the second report
  leaves the list as it is.
\<close>

theorem padded_tuple_stored_once:
  assumes "expected_size key = Some n" and "field_type env key = Some ''listofstringtuples''"
    and "length vs \<le> n" and "\<not> list_all (\<lambda>v. v = []) vs"
    and "field_list s key = Some obj"
    and "ITup (vs @ replicate (n - length vs) []) \<notin> set obj"
  shows "field_list (fst (add_metadata env key (strs vs) s)) key
           = Some (obj @ [ITup (vs @ replicate (n - length vs) [])])
       \<and> field_list (fst (add_metadata env key (strs (vs @ replicate (n - length vs) []))
             (fst (add_metadata env key (strs vs) s)))) key
           = Some (obj @ [ITup (vs @ replicate (n - length vs) [])])"
proof -
  let ?padded = "vs @ replicate (n - length vs) []"
  let ?s1 = "fst (add_metadata env key (strs vs) s)"
  have 1: "field_list ?s1 key = Some (obj @ [ITup ?padded])"
    using padded_report [OF assms(1,2,4,5)] assms(6) by simp
  have ne: "\<not> list_all (\<lambda>v. v = []) ?padded"
    using assms(4) by simp
  have "field_list (fst (add_metadata env key (strs ?padded) ?s1)) key
      = Some (obj @ [ITup ?padded])"
    using padded_report [OF assms(1,2) ne 1] assms(3) by simp
  with 1 show ?thesis by simp
qed

theorem padded_tuple_stored_once_witness:
  "expected_size ''proxy'' = Some 5
   \<and> field_type example_env ''proxy'' = Some ''listofstringtuples''
   \<and> length [''user'', ''pass'', ''host''] \<le> (5::nat)
   \<and> \<not> list_all (\<lambda>v. v = []) [''user'', ''pass'', ''host'']
   \<and> field_list fresh ''proxy'' = Some []
   \<and> field_list (fst (add_metadata example_env ''proxy''
          (strs [''user'', ''pass'', ''host'', [], []])
          (fst (add_metadata example_env ''proxy'' (strs [''user'', ''pass'', ''host'']) fresh))))
        ''proxy''
       = Some [ITup [''user'', ''pass'', ''host'', [], []]]
   \<and> expected_size ''rsa_private_key'' = Some 8
   \<and> field_list (fst (add_metadata example_env ''rsa_private_key''
          (strs [''e'', ''n'', ''d'', [], [], [], [], []])
          (fst (add_metadata example_env ''rsa_private_key'' (strs [''e'', ''n'', ''d'']) fresh))))
        ''rsa_private_key''
       = Some [ITup [''e'', ''n'', ''d'', [], [], [], [], []]]"
proof -
  have h: "expected_size ''proxy'' = Some 5" "expected_size ''rsa_private_key'' = Some 8"
    "field_type example_env ''proxy'' = Some ''listofstringtuples''"
    "field_type example_env ''rsa_private_key'' = Some ''listofstringtuples''"
    "field_list fresh k = Some []" for k
    by (simp_all add: expected_size_def example_env_simps fields_json_def field_list_def
        fresh_simps)
  have r: "replicate 2 [] = [[], []]" "replicate 5 [] = [[], [], [], [], []]"
    by (simp_all add: numeral_eq_Suc)
  show ?thesis
    using padded_tuple_stored_once [OF h(1) h(3) _ _ h(5), of "[''user'', ''pass'', ''host'']"]
      padded_tuple_stored_once [OF h(2) h(4) _ _ h(5), of "[''e'', ''n'', ''d'']"] h
    by (simp add: r)
qed






text \<open>
  C4. Reporting \<^verbatim>\<open>c2_url = "http://bad.com:80/x"\<close> to an empty store, with the fields of
  the cascade typed as their rules presuppose, leaves the store with the URL under
  \<^verbatim>\<open>c2_url\<close> and \<^verbatim>\<open>url\<close>, \<^verbatim>\<open>/x\<close> under \<^verbatim>\<open>urlpath\<close>, the tuple
  \<^verbatim>\<open>(bad.com, 80, tcp)\<close> under \<^verbatim>\<open>c2_socketaddress\<close> and \<^verbatim>\<open>socketaddress\<close>,
  \<^verbatim>\<open>bad.com\<close> under \<^verbatim>\<open>c2_address\<close> and \<^verbatim>\<open>address\<close>, and \<^verbatim>\<open>(80, tcp)\<close> under
  \<^verbatim>\<open>port\<close>; nothing is raised.
\<close>

theorem c2_url_example:
  assumes "field_type env ''c2_url'' = Some ''listofstrings''"
    and "field_type env ''url'' = Some ''listofstrings''"
    and "field_type env ''urlpath'' = Some ''listofstrings''"
    and "field_type env ''c2_address'' = Some ''listofstrings''"
    and "field_type env ''address'' = Some ''listofstrings''"
    and "field_type env ''c2_socketaddress'' = Some ''listofstringtuples''"
    and "field_type env ''socketaddress'' = Some ''listofstringtuples''"
    and "field_type env ''port'' = Some ''listofstringtuples''"
    and "py_int env ''80'' = Some 80"
    and "metadata s = []"
  shows "add_metadata env ''c2_url'' (VStr ''http://bad.com:80/x'') s =
    (s\<lparr>metadata :=
        [(''c2_url'', MList [IStr ''http://bad.com:80/x'']),
         (''url'', MList [IStr ''http://bad.com:80/x'']),
         (''urlpath'', MList [IStr ''/x'']),
         (''socketaddress'', MList [ITup [''bad.com'', ''80'', ''tcp'']]),
         (''address'', MList [IStr ''bad.com'']),
         (''port'', MList [ITup [''80'', ''tcp'']]),
         (''c2_socketaddress'', MList [ITup [''bad.com'', ''80'', ''tcp'']]),
         (''c2_address'', MList [IStr ''bad.com''])]\<rparr>, None)"
  using assms
  by (simp add: eval_defs url_example address_example PORT_RE_search_def is_digit_def)


theorem c2_url_example_witness:
  "field_type example_env ''c2_url'' = Some ''listofstrings''
   \<and> field_type example_env ''c2_socketaddress'' = Some ''listofstringtuples''
   \<and> py_int example_env ''80'' = Some 80
   \<and> metadata fresh = []
   \<and> metadata (fst (add_metadata example_env ''c2_url'' (VStr ''http://bad.com:80/x'') fresh))
       = [(''c2_url'', MList [IStr ''http://bad.com:80/x'']),
          (''url'', MList [IStr ''http://bad.com:80/x'']),
          (''urlpath'', MList [IStr ''/x'']),
          (''socketaddress'', MList [ITup [''bad.com'', ''80'', ''tcp'']]),
          (''address'', MList [IStr ''bad.com'']),
          (''port'', MList [ITup [''80'', ''tcp'']]),
          (''c2_socketaddress'', MList [ITup [''bad.com'', ''80'', ''tcp'']]),
          (''c2_address'', MList [IStr ''bad.com''])]"
proof -
  have h: "field_type example_env ''c2_url'' = Some ''listofstrings''"
    "field_type example_env ''url'' = Some ''listofstrings''"
    "field_type example_env ''urlpath'' = Some ''listofstrings''"
    "field_type example_env ''c2_address'' = Some ''listofstrings''"
    "field_type example_env ''address'' = Some ''listofstrings''"
    "field_type example_env ''c2_socketaddress'' = Some ''listofstringtuples''"
    "field_type example_env ''socketaddress'' = Some ''listofstringtuples''"
    "field_type example_env ''port'' = Some ''listofstringtuples''"
    "py_int example_env ''80'' = Some 80"
    "metadata fresh = []"
    by (simp_all add: example_env_simps fields_json_def example_int_def is_digit_def fresh_simps)
  show ?thesis
    using c2_url_example [OF h] h by simp
qed

text \<open>
  C2, on the code. The proxy tuple \<^verbatim>\<open>(user, pass, host)\<close> is padded to five components
  before the rule of \<^verbatim>\<open>proxy\<close> counts what follows the credential: three components
  follow, not one, so the rule reports \<^verbatim>\<open>proxy_socketaddress = (host, "", "")\<close>. The
  store gets that tuple and \<^verbatim>\<open>socketaddress = (host, "", "")\<close>; \<^verbatim>\<open>proxy_address\<close>
  comes from the rule of \<^verbatim>\<open>proxy_socketaddress\<close>, and the empty port is skipped with a
  warning.
\<close>

theorem proxy_example:
  "add_metadata example_env ''proxy'' (strs [''user'', ''pass'', ''host'']) fresh =
    (fresh\<lparr>metadata :=
        [(''proxy'', MList [ITup [''user'', ''pass'', ''host'', [], []]]),
         (''credential'', MList [ITup [''user'', ''pass'']]),
         (''username'', MList [IStr ''user'']),
         (''password'', MList [IStr ''pass'']),
         (''proxy_socketaddress'', MList [ITup [''host'', [], []]]),
         (''socketaddress'', MList [ITup [''host'', [], []]]),
         (''address'', MList [IStr ''host'']),
         (''proxy_address'', MList [IStr ''host''])],
       logged := [(WARNING, ''no values provided for port, skipping'')]\<rparr>, None)"
proof -
  have h: "field_type example_env ''proxy'' = Some ''listofstringtuples''"
    "field_type example_env ''credential'' = Some ''listofstringtuples''"
    "field_type example_env ''username'' = Some ''listofstrings''"
    "field_type example_env ''password'' = Some ''listofstrings''"
    "field_type example_env ''proxy_socketaddress'' = Some ''listofstringtuples''"
    "field_type example_env ''socketaddress'' = Some ''listofstringtuples''"
    "field_type example_env ''address'' = Some ''listofstrings''"
    "field_type example_env ''proxy_address'' = Some ''listofstrings''"
    "field_type example_env ''port'' = Some ''listofstringtuples''"
    by (simp_all add: example_env_simps fields_json_def)
  have r: "replicate 2 (VStr []) = [VStr [], VStr []]"
    by (simp add: numeral_eq_Suc)
  show ?thesis
    by (simp add: eval_defs h r logger_warn_def logger_log_def fresh_simps msg_no_values_def)
qed

text \<open>
  C6, on the code. A dict whose first entry is not a string: the argument of the warning,
  \<^verbatim>\<open>type(subvalue[subkey])\<close>, raises a TypeError, the loop ends, and \<^verbatim>\<open>add_metadata\<close>
  logs an error. The entry \<^verbatim>\<open>b\<close> that follows is not merged, and no warning is logged.
\<close>

theorem dictofstrings_example:
  "add_metadata example_env ''other'' (VDict [(''a'', VInt 1), (''b'', VStr ''x'')]) fresh =
    (fresh\<lparr>logged := [(ERROR, ''Error adding metadata for key: other'')]\<rparr>, None)
   \<and> ERROR \<noteq> WARNING"
proof -
  have h: "field_type example_env ''other'' = Some ''dictofstrings''"
    by (simp add: example_env_simps fields_json_def)
  show ?thesis
    by (simp add: eval_defs h logger_exception_def logger_log_def fresh_simps
        msg_error_adding_def ERROR_def WARNING_def)
qed



end
